theory Spec2Isabelle
  imports Main "HOL-Library.Sublist"
begin

section \<open>Data model of the bitstream data service\<close>

text \<open>
  The file under verification is \<^verbatim>\<open>src/app/core/data/bitstream-data.service.ts\<close>.
  The classes it imports (RemoteData, RemoteDataError, PaginatedList, Bundle,
  Bitstream, FindListOptions, FollowLinkConfig) are declared elsewhere; they
  are modelled below with the fields the service reads or writes.
\<close>

text \<open>
  Modelled from the spec: the class RemoteDataError of \<^verbatim>\<open>remote-data-error.ts\<close> is
  not among the sources. The spec's ErrorInfo is
  \<^verbatim>\<open>{ statusCode: int, statusText: string, message: string }\<close>; the constructor
  call \<^verbatim>\<open>new RemoteDataError(404, '404', '...')\<close> gives the three fields in
  this order.
\<close>

record RemoteDataError =
  statusCode :: int
  statusText :: string
  message :: string

definition RemoteDataError_new :: "int \<Rightarrow> string \<Rightarrow> string \<Rightarrow> RemoteDataError" where
  "RemoteDataError_new code text msg =
     \<lparr>statusCode = code, statusText = text, message = msg\<rparr>"

text \<open>
  Modelled from the spec: the class RemoteData of \<^verbatim>\<open>remote-data.ts\<close> is not among
  the sources. The spec's RemoteDataWrapper has the fields
  \<^verbatim>\<open>{ isRequestPending, isResponsePending, hasSucceeded, error, payload }\<close>,
  the last two optional; the five positional arguments of \<^verbatim>\<open>new RemoteData(...)\<close>
  are these fields in this order. An absent (\<^verbatim>\<open>undefined\<close>) field is \<open>None\<close>.
\<close>

record 'a RemoteData =
  isRequestPending :: bool
  isResponsePending :: bool
  hasSucceeded :: bool
  error :: "RemoteDataError option"
  payload :: "'a option"

definition RemoteData_new ::
  "bool \<Rightarrow> bool \<Rightarrow> bool \<Rightarrow> RemoteDataError option \<Rightarrow> 'a option \<Rightarrow> 'a RemoteData" where
  "RemoteData_new requestPending responsePending isSuccessful err pl =
     \<lparr>isRequestPending = requestPending, isResponsePending = responsePending,
      hasSucceeded = isSuccessful, error = err, payload = pl\<rparr>"

text \<open>
  Modelled from the spec: PaginatedList of \<^verbatim>\<open>paginated-list.ts\<close> is not among the
  sources. The spec gives
  \<^verbatim>\<open>{ page: sequence of T, pageInfo: {elementsPerPage, totalElements, currentPage} }\<close>.
  The service tests \<^verbatim>\<open>hasValue(payload.page)\<close> before it reads the page, so the
  field is optional here.
\<close>

record PageInfo =
  pageElementsPerPage :: int
  totalElements :: int
  pageCurrentPage :: int

record 'a PaginatedList =
  page :: "'a list option"
  pageInfo :: PageInfo

text \<open>
  Bundle and Bitstream (\<^verbatim>\<open>bundle.model.ts\<close>, \<^verbatim>\<open>bitstream.model.ts\<close>) are not among
  the sources either. The service reads \<^verbatim>\<open>bundle._links.bitstreams.href\<close> and
  \<^verbatim>\<open>bitstream.name\<close>, both declared as strings; \<^verbatim>\<open>uuid\<close> tells two bitstreams
  of the same name apart.
\<close>

record HALLink =
  href :: string

record BundleLinks =
  bitstreams :: HALLink

record Bundle =
  bundle_uuid :: string
  links :: BundleLinks

record Bitstream =
  uuid :: string
  name :: string

text \<open>
  Modelled from the spec: FindListOptions of \<^verbatim>\<open>request.models.ts\<close> is not among the
  sources. The spec's query options are
  \<^verbatim>\<open>{ elementsPerPage, currentPage, sort, filters }\<close>; a property that an object
  literal such as \<^verbatim>\<open>{ elementsPerPage: 1 }\<close> leaves out is \<open>None\<close>.
\<close>

record FindListOptions =
  elementsPerPage :: "int option"
  currentPage :: "int option"
  sortBy :: "string option"
  filters :: "(string \<times> string) list option"

text \<open>
  Modelled from the spec: FollowLinkConfig of \<^verbatim>\<open>follow-link-config.model.ts\<close> is not
  among the sources. The spec's LinkDescriptor is a relation name with the
  nested descriptors to follow.
\<close>

datatype FollowLinkConfig = FollowLinkConfig string "FollowLinkConfig list"

text \<open>\<^verbatim>\<open>Number.MAX_SAFE_INTEGER\<close> of ECMAScript is \<open>2\<^sup>5\<^sup>3 - 1\<close>.\<close>

definition MAX_SAFE_INTEGER :: int where
  "MAX_SAFE_INTEGER = 2 ^ 53 - 1"

text \<open>
  The TypeScript casts \<^verbatim>\<open>bundleRD as any\<close> and \<^verbatim>\<open>bitstreamRD as any\<close> change no
  run-time value: the wrapper that leaves the service may carry a bundle, a
  page of bitstreams or a bitstream. \<open>any\<close> is the union of these payloads and
  \<open>as_any\<close> the cast, which keeps every field of the wrapper.
\<close>

datatype any =
    AnyBundle Bundle
  | AnyPaginatedList "Bitstream PaginatedList"
  | AnyBitstream Bitstream

definition as_any :: "('a \<Rightarrow> any) \<Rightarrow> 'a RemoteData \<Rightarrow> any RemoteData" where
  "as_any up rd =
     \<lparr>isRequestPending = isRequestPending rd, isResponsePending = isResponsePending rd,
      hasSucceeded = hasSucceeded rd, error = error rd,
      payload = map_option up (payload rd)\<rparr>"

section \<open>JavaScript values and exceptions\<close>

text \<open>
  Reading a property of \<^verbatim>\<open>undefined\<close> throws a TypeError; that is the only
  exception the statements of the service can raise. \<open>member obj read\<close> is the
  property access \<^verbatim>\<open>obj.p\<close> on a possibly absent object.
\<close>

datatype exn = TypeError

definition member :: "'a option \<Rightarrow> ('a \<Rightarrow> exn + 'b) \<Rightarrow> exn + 'b" where
  "member obj read = (case obj of None \<Rightarrow> Inl TypeError | Some v \<Rightarrow> read v)"

text \<open>
  Modelled from the spec: the helpers \<^verbatim>\<open>hasValue\<close> and \<^verbatim>\<open>isNotEmpty\<close> of
  \<^verbatim>\<open>shared/empty.util.ts\<close> are not among the sources. \<^verbatim>\<open>hasValue\<close> holds of every
  value but \<^verbatim>\<open>undefined\<close> and \<^verbatim>\<open>null\<close> (the spec's "absent"). \<^verbatim>\<open>isNotEmpty\<close>
  rejects in addition objects without own properties and containers of size
  zero; a Bundle always has its \<^verbatim>\<open>_links\<close> and has no size, so a present
  bundle is not empty (the spec's "non-empty payload").
\<close>

definition hasValue :: "'a option \<Rightarrow> bool" where
  "hasValue obj = (case obj of None \<Rightarrow> False | Some v \<Rightarrow> True)"

definition isNotEmpty :: "Bundle option \<Rightarrow> bool" where
  "isNotEmpty obj = (case obj of None \<Rightarrow> False | Some bundle \<Rightarrow> True)"

text \<open>\<^verbatim>\<open>array[i]\<close>: an index past the end reads \<^verbatim>\<open>undefined\<close>, it does not throw.\<close>

definition at_index :: "'a list \<Rightarrow> nat \<Rightarrow> 'a option" where
  "at_index xs i = (if i < length xs then Some (xs ! i) else None)"

text \<open>
  \<^verbatim>\<open>String.prototype.startsWith\<close>: \<^verbatim>\<open>s.startsWith(p)\<close> holds when \<open>p\<close> is an
  initial segment of \<open>s\<close>. \<^verbatim>\<open>Array.prototype.find\<close> is \<^const>\<open>List.find\<close>: the
  first element that satisfies the predicate, in array order, or \<^verbatim>\<open>undefined\<close>.
\<close>

definition startsWith :: "string \<Rightarrow> string \<Rightarrow> bool" where
  "startsWith s p = prefix p s"

section \<open>Observables\<close>

text \<open>
  An RxJS observable is modelled by the finite trace a subscriber sees: the
  notifications in the order of their delivery, each with its tick, the time on the
  clock of the event loop since the subscription. Tick \<open>0\<close> is the subscription
  itself: a notification at tick \<open>0\<close> is made synchronously, inside the call of
  \<^verbatim>\<open>subscribe\<close>; every asynchronous notification has a later tick. A
  notification is a value (\<^verbatim>\<open>next\<close>) or an exception (\<^verbatim>\<open>error\<close>), and nothing
  follows an error. The observables of the service are cold: every subscription
  replays the trace.
\<close>

datatype 'a notification = Next 'a | Error exn

type_synonym 'a Observable = "(nat \<times> 'a notification) list"

fun until_error :: "'a Observable \<Rightarrow> 'a Observable" where
  "until_error [] = []"
| "until_error ((t, Next x) # rest) = (t, Next x) # until_error rest"
| "until_error ((t, Error e) # rest) = [(t, Error e)]"

text \<open>An array used as an observable emits its elements on subscription.\<close>

definition from_array :: "'a list \<Rightarrow> 'a Observable" where
  "from_array xs = map (\<lambda>x. (0, Next x)) xs"

text \<open>
  \<^verbatim>\<open>map(project)\<close>: every value is replaced by its image; an exception thrown
  by \<open>project\<close> becomes the error notification that ends the trace.
\<close>

fun project_notification :: "('a \<Rightarrow> exn + 'b) \<Rightarrow> 'a notification \<Rightarrow> 'b notification" where
  "project_notification project (Next x) =
     (case project x of Inl e \<Rightarrow> Error e | Inr y \<Rightarrow> Next y)"
| "project_notification project (Error e) = Error e"

definition map_op :: "('a \<Rightarrow> exn + 'b) \<Rightarrow> 'a Observable \<Rightarrow> 'b Observable" where
  "map_op project source =
     until_error (map (\<lambda>(t, n). (t, project_notification project n)) source)"

text \<open>
  \<^verbatim>\<open>switchMap(project)\<close>: each value of the source subscribes to the inner
  observable \<open>project x\<close> at the tick \<open>t\<close> of that value and unsubscribes from
  the previous inner observable. A notification that the inner observable makes
  \<open>d\<close> ticks after its subscription is due at tick \<open>t + d\<close>. It is delivered
  \<^item> when \<open>d = 0\<close>: it is made inside the subscription, before the source can go on;
  \<^item> when it is due strictly before the next notification of the source
    (\<open>in_time\<close>); the last inner observable is never cut off;
  \<^item> when it is due at the very tick of the next notification of the source
    (\<open>at_tie\<close>) and the event loop processes it first. The traces do not
    determine that order: it is the parameter \<open>first\<close>, where \<open>first u i\<close>
    tells whether at tick \<open>u\<close> the notification at position \<open>i\<close> of the
    inner trace is processed before the notification of the source.

  A notification due later than the next notification of the source is dropped. An
  error of the source, of \<open>project\<close> or of an inner observable ends the trace.
\<close>

definition in_time :: "'a Observable \<Rightarrow> nat \<Rightarrow> bool" where
  "in_time later u = (case later of [] \<Rightarrow> True | (t', _) # _ \<Rightarrow> u < t')"

definition at_tie :: "'a Observable \<Rightarrow> nat \<Rightarrow> bool" where
  "at_tie later u = (case later of [] \<Rightarrow> False | (t', _) # _ \<Rightarrow> u = t')"

definition delivered ::
  "(nat \<Rightarrow> nat \<Rightarrow> bool) \<Rightarrow> 'a Observable \<Rightarrow> nat \<Rightarrow> 'b Observable \<Rightarrow> 'b Observable" where
  "delivered first later t inner =
     map (\<lambda>(i, d, n). (t + d, n))
       (filter (\<lambda>(i, d, n). d = 0 \<or> in_time later (t + d) \<or>
                              (at_tie later (t + d) \<and> first (t + d) i))
          (enumerate 0 inner))"

fun switch_all ::
  "(nat \<Rightarrow> nat \<Rightarrow> bool) \<Rightarrow> ('a \<Rightarrow> exn + 'b Observable) \<Rightarrow> 'a Observable \<Rightarrow> 'b Observable" where
  "switch_all first project [] = []"
| "switch_all first project ((t, Error e) # later) = [(t, Error e)]"
| "switch_all first project ((t, Next x) # later) =
     (case project x of
        Inl e \<Rightarrow> [(t, Error e)]
      | Inr inner \<Rightarrow> delivered first later t inner @ switch_all first project later)"

definition switchMap ::
  "(nat \<Rightarrow> nat \<Rightarrow> bool) \<Rightarrow> ('a \<Rightarrow> exn + 'b Observable) \<Rightarrow> 'a Observable \<Rightarrow> 'b Observable" where
  "switchMap first project source = until_error (switch_all first project source)"

text \<open>
  TypeScript widens an \<^verbatim>\<open>Observable<RemoteData<T>>\<close> that is returned where an
  \<^verbatim>\<open>Observable<any>\<close> is expected; no value changes.
\<close>

definition widened :: "('a \<Rightarrow> any) \<Rightarrow> 'a RemoteData Observable \<Rightarrow> any RemoteData Observable" where
  "widened up source = map (\<lambda>(t, n). (t, map_notification (as_any up) n)) source"

section \<open>The service\<close>

text \<open>
  The collaborators of the service are not among the sources and are taken as
  parameters: \<^verbatim>\<open>this.bundleService.findByItemAndName\<close> of the bundle data service
  and \<^verbatim>\<open>this.findAllByHref\<close>, inherited from the generic DataService. Both return
  an observable of wrappers. The type of items is left open. The order in which the
  event loop processes notifications that are due at the same tick is not in the
  hands of the service either: \<open>inner_first\<close> is the parameter \<open>first\<close> of
  switchMap, and every statement below holds for each such order.

  In the three lookups the arrow functions of the source are the \<open>\<lambda>\<close>-terms below.
  A function returns \<open>Inr\<close> of its value, or \<open>Inl\<close> of the exception it throws.
  \<^verbatim>\<open>bundleRD.payload\<close> passed to findAllByBundle is read there as
  \<^verbatim>\<open>bundle._links\<close>, which throws on an absent payload: that read is
  \<open>member (payload bundleRD)\<close>. The condition \<^verbatim>\<open>hasValue(a) && hasValue(a.page)\<close>
  reads \<^verbatim>\<open>a.page\<close> only when its left operand holds.
\<close>

record 'item services =
  findByItemAndName :: "'item \<Rightarrow> string \<Rightarrow> Bundle RemoteData Observable"
  findAllByHref :: "string \<Rightarrow> FindListOptions option \<Rightarrow> FollowLinkConfig list
                     \<Rightarrow> Bitstream PaginatedList RemoteData Observable"
  inner_first :: "nat \<Rightarrow> nat \<Rightarrow> bool"

definition findAllByBundle ::
  "'item services \<Rightarrow> Bundle \<Rightarrow> FindListOptions option \<Rightarrow> FollowLinkConfig list
     \<Rightarrow> Bitstream PaginatedList RemoteData Observable" where
  "findAllByBundle this bundle options linksToFollow =
     findAllByHref this (href (bitstreams (links bundle))) options linksToFollow"

definition getThumbnailFor :: "'item services \<Rightarrow> 'item \<Rightarrow> any RemoteData Observable" where
  "getThumbnailFor this item =
     switchMap (inner_first this) (\<lambda>bundleRD.
        if isNotEmpty (payload bundleRD) then
          member (payload bundleRD) (\<lambda>bundle. Inr (
            map_op (\<lambda>bitstreamRD.
               case (if hasValue (payload bitstreamRD)
                     then member (payload bitstreamRD) (\<lambda>list. Inr (hasValue (page list)))
                     else Inr False) of
                 Inl e \<Rightarrow> Inl e
               | Inr True \<Rightarrow>
                   member (payload bitstreamRD) (\<lambda>list.
                   member (page list) (\<lambda>bitstreams.
                     Inr (RemoteData_new False False True None
                            (map_option AnyBitstream (at_index bitstreams 0)))))
               | Inr False \<Rightarrow> Inr (as_any AnyPaginatedList bitstreamRD))
              (findAllByBundle this bundle
                 (Some \<lparr>elementsPerPage = Some 1, currentPage = None,
                        sortBy = None, filters = None\<rparr>) [])))
        else Inr (from_array [as_any AnyBundle bundleRD]))
       (findByItemAndName this item ''THUMBNAIL'')"

definition getMatchingThumbnail ::
  "'item services \<Rightarrow> 'item \<Rightarrow> Bitstream \<Rightarrow> any RemoteData Observable" where
  "getMatchingThumbnail this item bitstreamInOriginal =
     switchMap (inner_first this) (\<lambda>bundleRD.
        if isNotEmpty (payload bundleRD) then
          member (payload bundleRD) (\<lambda>bundle. Inr (
            map_op (\<lambda>bitstreamRD.
               case (if hasValue (payload bitstreamRD)
                     then member (payload bitstreamRD) (\<lambda>list. Inr (hasValue (page list)))
                     else Inr False) of
                 Inl e \<Rightarrow> Inl e
               | Inr True \<Rightarrow>
                   member (payload bitstreamRD) (\<lambda>list.
                   member (page list) (\<lambda>bitstreams.
                     let matchingThumbnail =
                           find (\<lambda>thumbnail. startsWith (name thumbnail) (name bitstreamInOriginal))
                             bitstreams
                     in if hasValue matchingThumbnail then
                          Inr (RemoteData_new False False True None
                                 (map_option AnyBitstream matchingThumbnail))
                        else
                          Inr (RemoteData_new False False False
                                 (Some (RemoteDataError_new 404 ''404''
                                          ''No matching thumbnail found''))
                                 None)))
               | Inr False \<Rightarrow> Inr (as_any AnyPaginatedList bitstreamRD))
              (findAllByBundle this bundle
                 (Some \<lparr>elementsPerPage = Some MAX_SAFE_INTEGER, currentPage = None,
                        sortBy = None, filters = None\<rparr>) [])))
        else Inr (from_array [as_any AnyBundle bundleRD]))
       (findByItemAndName this item ''THUMBNAIL'')"

definition findAllByItemAndBundleName ::
  "'item services \<Rightarrow> 'item \<Rightarrow> string \<Rightarrow> FindListOptions option \<Rightarrow> FollowLinkConfig list
     \<Rightarrow> any RemoteData Observable" where
  "findAllByItemAndBundleName this item bundleName options linksToFollow =
     switchMap (inner_first this) (\<lambda>bundleRD.
        if hasValue (payload bundleRD) then
          member (payload bundleRD) (\<lambda>bundle. Inr (
            widened AnyPaginatedList (findAllByBundle this bundle options linksToFollow)))
        else Inr (from_array [as_any AnyBundle bundleRD]))
       (findByItemAndName this item bundleName)"

section \<open>Contracts of the collaborators\<close>

text \<open>
  The generic client never throws: every failure of a lookup is a wrapper in
  the Failed state, so the observables of the collaborators carry no error
  notification (\<open>never_throw\<close>), and a trace lists its notifications in the
  order of their ticks (\<open>in_time_order\<close>).
\<close>

definition no_errors :: "'a Observable \<Rightarrow> bool" where
  "no_errors source =
     list_all (\<lambda>(t, n). case n of Next x \<Rightarrow> True | Error e \<Rightarrow> False) source"

definition in_time_order :: "'a Observable \<Rightarrow> bool" where
  "in_time_order source = sorted (map fst source)"

definition never_throw :: "'item services \<Rightarrow> bool" where
  "never_throw this \<longleftrightarrow>
     (\<forall>item bundleName. no_errors (findByItemAndName this item bundleName)) \<and>
     (\<forall>url options linksToFollow.
        no_errors (findAllByHref this url options linksToFollow))"

section \<open>Statements of the specification\<close>

text \<open>
  The invariant of a wrapper: a wrapper that has succeeded carries no error, and one
  that has not succeeded carries one.
\<close>

definition wrapper_invariant :: "'a RemoteData \<Rightarrow> bool" where
  "wrapper_invariant rd \<longleftrightarrow>
     (hasSucceeded rd \<longrightarrow> error rd = None) \<and> (\<not> hasSucceeded rd \<longrightarrow> error rd \<noteq> None)"

text \<open>
  A wrapper in the Failed state: it has not succeeded and its error is set. The
  specification leaves open whether such a wrapper carries a payload.
\<close>

definition Failed :: "'a RemoteData \<Rightarrow> bool" where
  "Failed rd \<longleftrightarrow> \<not> hasSucceeded rd \<and> error rd \<noteq> None"

text \<open>
  The composition that the specification gives for the bitstreams of a named bundle:
  resolve the bundle with \<^verbatim>\<open>findByItemAndName\<close>; then, when the wrapper has a
  payload, list the \<^verbatim>\<open>bitstreams\<close> relation of that bundle with
  \<^verbatim>\<open>findAllByHref\<close>, given the options and the links to follow; when it has
  none, emit the wrapper of the bundle itself.
\<close>

definition findAllByItemAndBundleName_spec ::
  "'item services \<Rightarrow> 'item \<Rightarrow> string \<Rightarrow> FindListOptions option \<Rightarrow> FollowLinkConfig list
     \<Rightarrow> any RemoteData Observable" where
  "findAllByItemAndBundleName_spec this item bundleName options linksToFollow =
     switchMap (inner_first this) (\<lambda>bundleRD. Inr (
        case payload bundleRD of
          Some bundle \<Rightarrow>
            widened AnyPaginatedList
              (findAllByHref this (href (bitstreams (links bundle))) options linksToFollow)
        | None \<Rightarrow> from_array [as_any AnyBundle bundleRD]))
       (findByItemAndName this item bundleName)"

section \<open>A repository to run the service on\<close>

text \<open>
  Concrete collaborators for the closed instances below: the bundle lookup
  reports a pending request and then the given wrapper; the listing reports a
  pending request and, two ticks later, the page that the options ask for.
\<close>

definition THUMBNAIL_bundle :: Bundle where
  "THUMBNAIL_bundle =
     \<lparr>bundle_uuid = ''bundle-7'',
      links = \<lparr>bitstreams = \<lparr>href = ''/api/core/bundles/bundle-7/bitstreams''\<rparr>\<rparr>\<rparr>"

definition report_pdf :: Bitstream where
  "report_pdf = \<lparr>uuid = ''bitstream-0'', name = ''report.pdf''\<rparr>"

definition cover_jpg :: Bitstream where
  "cover_jpg = \<lparr>uuid = ''bitstream-1'', name = ''cover.jpg''\<rparr>"

definition report_pdf_jpg :: Bitstream where
  "report_pdf_jpg = \<lparr>uuid = ''bitstream-2'', name = ''report.pdf.jpg''\<rparr>"

definition report_pdf_png :: Bitstream where
  "report_pdf_png = \<lparr>uuid = ''bitstream-3'', name = ''report.pdf.png''\<rparr>"

definition pending :: "'a RemoteData" where
  "pending = RemoteData_new True False False None None"

definition succeeded :: "'a \<Rightarrow> 'a RemoteData" where
  "succeeded x = RemoteData_new False False True None (Some x)"

definition failed :: "int \<Rightarrow> string \<Rightarrow> string \<Rightarrow> 'a RemoteData" where
  "failed code text msg =
     RemoteData_new False False False (Some (RemoteDataError_new code text msg)) None"

definition page_size :: "FindListOptions option \<Rightarrow> int" where
  "page_size options =
     (case options of
        None \<Rightarrow> 20
      | Some given \<Rightarrow> (case elementsPerPage given of None \<Rightarrow> 20 | Some n \<Rightarrow> n))"

definition first_page :: "FindListOptions option \<Rightarrow> Bitstream list \<Rightarrow> Bitstream PaginatedList" where
  "first_page options elements =
     \<lparr>page = Some (take (nat (page_size options)) elements),
      pageInfo = \<lparr>pageElementsPerPage = page_size options,
                  totalElements = int (length elements), pageCurrentPage = 0\<rparr>\<rparr>"

definition repository :: "Bundle RemoteData \<Rightarrow> Bitstream list \<Rightarrow> string services" where
  "repository bundleRD thumbnails =
     \<lparr>findByItemAndName = (\<lambda>item bundleName. [(0, Next pending), (1, Next bundleRD)]),
      findAllByHref = (\<lambda>url options linksToFollow.
         [(0, Next pending), (2, Next (succeeded (first_page options thumbnails)))]),
      inner_first = (\<lambda>u i. False)\<rparr>"

text \<open>
  Collaborators that answer a listing only when it is requested with the given options
  and with no links to follow, and deliver nothing otherwise.
\<close>

definition answering_only :: "FindListOptions \<Rightarrow> string services \<Rightarrow> string services" where
  "answering_only asked this =
     this\<lparr>findAllByHref := (\<lambda>url options linksToFollow.
        if options = Some asked \<and> linksToFollow = []
        then findAllByHref this url options linksToFollow else [])\<rparr>"

text \<open>
  A repository whose listing has failed with a server error and still carries the
  page it held before.
\<close>

definition stale_page :: "FindListOptions option \<Rightarrow> Bitstream list \<Rightarrow> Bitstream PaginatedList RemoteData" where
  "stale_page options thumbnails =
     RemoteData_new False False False
       (Some (RemoteDataError_new 500 ''500'' ''Internal Server Error''))
       (Some (first_page options thumbnails))"

definition failing_repository :: "Bitstream list \<Rightarrow> string services" where
  "failing_repository thumbnails =
     \<lparr>findByItemAndName = (\<lambda>item bundleName. [(1, Next (succeeded THUMBNAIL_bundle))]),
      findAllByHref = (\<lambda>url options linksToFollow.
         [(2, Next (stale_page options thumbnails))]),
      inner_first = (\<lambda>u i. False)\<rparr>"

section \<open>Properties of the operators\<close>

lemma no_errors_simps [simp]:
  "no_errors []"
  "no_errors ((t, Next x) # rest) = no_errors rest"
  "no_errors ((t, Error e) # rest) = False"
  "no_errors (xs @ ys) = (no_errors xs \<and> no_errors ys)"
  by (simp_all add: no_errors_def)

lemma no_errors_iff: "no_errors source \<longleftrightarrow> (\<forall>t e. (t, Error e) \<notin> set source)"
  by (induction source rule: until_error.induct) auto

lemma until_error_id: "no_errors source \<Longrightarrow> until_error source = source"
  by (induction source rule: until_error.induct) auto

lemma set_until_error: "set (until_error source) \<subseteq> set source"
  by (induction source rule: until_error.induct) auto

lemma map_op_sound:
  "(d, Next y) \<in> set (map_op project source) \<Longrightarrow>
     \<exists>x. (d, Next x) \<in> set source \<and> project x = Inr y"
proof -
  assume "(d, Next y) \<in> set (map_op project source)"
  then have "(d, Next y) \<in> set (map (\<lambda>(t, n). (t, project_notification project n)) source)"
    unfolding map_op_def by (rule set_until_error[THEN subsetD])
  then obtain n where n: "(d, n) \<in> set source" "project_notification project n = Next y"
    by auto
  then show ?thesis
    by (cases n) (auto split: sum.splits)
qed

lemma map_op_total:
  assumes "no_errors source"
    and "\<And>t x. (t, Next x) \<in> set source \<Longrightarrow> \<exists>y. project x = Inr y"
  shows "map_op project source = map (\<lambda>(t, n). (t, project_notification project n)) source"
    and "no_errors (map_op project source)"
proof -
  have "no_errors (map (\<lambda>(t, n). (t, project_notification project n)) source)"
    unfolding no_errors_iff
  proof (intro allI notI)
    fix t e
    assume "(t, Error e) \<in> set (map (\<lambda>(t, n). (t, project_notification project n)) source)"
    then obtain n where n: "(t, n) \<in> set source" "project_notification project n = Error e"
      by auto
    show False
    proof (cases n)
      case (Next x)
      with n assms(2)[of t x] show False by auto
    next
      case (Error e')
      with n assms(1) show False by (auto simp: no_errors_iff)
    qed
  qed
  then show "map_op project source = map (\<lambda>(t, n). (t, project_notification project n)) source"
    "no_errors (map_op project source)"
    by (simp_all add: map_op_def until_error_id)
qed

lemma map_op_complete:
  assumes "no_errors source"
    and "\<And>t x. (t, Next x) \<in> set source \<Longrightarrow> \<exists>y. project x = Inr y"
    and "(d, Next x) \<in> set source" and "project x = Inr y"
  shows "(d, Next y) \<in> set (map_op project source)"
proof -
  have "(d, project_notification project (Next x)) \<in> set (map (\<lambda>(t, n). (t, project_notification project n)) source)"
    using assms(3) by force
  then show ?thesis
    using map_op_total(1)[OF assms(1,2)] assms(4) by simp
qed

lemma delivered_sound:
  assumes "(u, n) \<in> set (delivered first later t inner)"
  shows "\<exists>d. (d, n) \<in> set inner \<and> u = t + d"
proof -
  from assms obtain i d where i: "(i, d, n) \<in> set (enumerate 0 inner)" and u: "u = t + d"
    by (auto simp: delivered_def)
  from i have "i < length inner" "inner ! i = (d, n)"
    by (simp_all add: in_set_enumerate_eq)
  then have "(d, n) \<in> set inner"
    using nth_mem by force
  with u show ?thesis by blast
qed

lemma delivered_complete:
  assumes "(d, n) \<in> set inner" and "d = 0 \<or> in_time later (t + d)"
  shows "(t + d, n) \<in> set (delivered first later t inner)"
proof -
  from assms(1) obtain i where "i < length inner" "inner ! i = (d, n)"
    by (auto simp: in_set_conv_nth)
  then have "(i, d, n) \<in> set (enumerate 0 inner)"
    by (simp add: in_set_enumerate_eq)
  with assms(2) have "(i, d, n) \<in> set (filter (\<lambda>(i, d, n). d = 0 \<or> in_time later (t + d) \<or>
        (at_tie later (t + d) \<and> first (t + d) i)) (enumerate 0 inner))"
    by auto
  then show ?thesis
    unfolding delivered_def by force
qed

lemma no_errors_delivered: "no_errors inner \<Longrightarrow> no_errors (delivered first later t inner)"
  unfolding no_errors_iff using delivered_sound by blast

lemma switch_all_sound:
  "(u, Next y) \<in> set (switch_all first project source) \<Longrightarrow>
     \<exists>t x inner d. (t, Next x) \<in> set source \<and> project x = Inr inner \<and>
        (d, Next y) \<in> set inner \<and> u = t + d"
proof (induction first project source rule: switch_all.induct)
  case (3 first project t x later)
  show ?case
  proof (cases "project x")
    case (Inl e)
    with 3 show ?thesis by simp
  next
    case (Inr inner)
    from 3(2) Inr have "(u, Next y) \<in> set (delivered first later t inner) \<or>
        (u, Next y) \<in> set (switch_all first project later)"
      by simp
    then show ?thesis
    proof
      assume "(u, Next y) \<in> set (delivered first later t inner)"
      from delivered_sound[OF this] Inr show ?thesis by auto
    next
      assume "(u, Next y) \<in> set (switch_all first project later)"
      from 3(1)[OF Inr this] show ?thesis by auto
    qed
  qed
qed simp_all

lemma switchMap_sound:
  "(u, Next y) \<in> set (switchMap first project source) \<Longrightarrow>
     \<exists>t x inner d. (t, Next x) \<in> set source \<and> project x = Inr inner \<and>
        (d, Next y) \<in> set inner \<and> u = t + d"
  unfolding switchMap_def
  by (rule switch_all_sound, rule set_until_error[THEN subsetD])

lemma switch_all_no_errors:
  assumes "no_errors source"
    and "\<And>t x. (t, Next x) \<in> set source \<Longrightarrow> \<exists>inner. project x = Inr inner \<and> no_errors inner"
  shows "no_errors (switch_all first project source)"
  using assms
proof (induction source)
  case Nil
  then show ?case by simp
next
  case (Cons event rest)
  obtain t0 n0 where event: "event = (t0, n0)" by (cases event)
  with Cons.prems(1) obtain x0 where n0: "n0 = Next x0" by (cases n0) auto
  from Cons.prems(2)[of t0 x0] event n0 obtain inner0 where
    i: "project x0 = Inr inner0" "no_errors inner0" by auto
  have "no_errors (switch_all first project rest)"
    using Cons event n0 by auto
  then show ?case using i event n0 by (simp add: no_errors_delivered)
qed

lemma switchMap_total:
  assumes "no_errors source"
    and "\<And>t x. (t, Next x) \<in> set source \<Longrightarrow> \<exists>inner. project x = Inr inner \<and> no_errors inner"
  shows "switchMap first project source = switch_all first project source"
    and "no_errors (switchMap first project source)"
  using switch_all_no_errors[OF assms] by (simp_all add: switchMap_def until_error_id)

lemma switch_all_complete:
  assumes "\<And>t x. (t, Next x) \<in> set earlier \<Longrightarrow> \<exists>inner. project x = Inr inner"
    and "no_errors earlier"
    and "project x = Inr inner" and "(d, n) \<in> set inner"
    and "d = 0 \<or> in_time later (t + d)"
  shows "(t + d, n) \<in> set (switch_all first project (earlier @ (t, Next x) # later))"
  using assms(1,2)
proof (induction earlier)
  case Nil
  have "(t + d, n) \<in> set (delivered first later t inner)"
    using assms(4,5) by (rule delivered_complete)
  then show ?case using assms(3) by simp
next
  case (Cons event rest)
  obtain t0 n0 where event: "event = (t0, n0)" by (cases event)
  with Cons.prems(2) obtain x0 where n0: "n0 = Next x0" by (cases n0) auto
  from Cons.prems(1)[of t0 x0] event n0 obtain inner0 where "project x0 = Inr inner0" by auto
  moreover have "(t + d, n) \<in> set (switch_all first project (rest @ (t, Next x) # later))"
    using Cons event n0 by auto
  ultimately show ?case using event n0 by simp
qed

lemma switchMap_complete:
  assumes "source = earlier @ (t, Next x) # later"
    and "no_errors source"
    and "\<And>t x. (t, Next x) \<in> set source \<Longrightarrow> \<exists>inner. project x = Inr inner \<and> no_errors inner"
    and "project x = Inr inner" and "(d, n) \<in> set inner"
    and "d = 0 \<or> in_time later (t + d)"
  shows "(t + d, n) \<in> set (switchMap first project source)"
proof -
  have "(t + d, n) \<in> set (switch_all first project (earlier @ (t, Next x) # later))"
    using assms by (intro switch_all_complete) auto
  then show ?thesis
    using switchMap_total(1)[OF assms(2,3)] assms(1) by simp
qed

section \<open>The operations with their guards resolved\<close>

lemma never_throwD:
  "never_throw this \<Longrightarrow> no_errors (findByItemAndName this item bundleName)"
  "never_throw this \<Longrightarrow> no_errors (findAllByHref this url options linksToFollow)"
  "never_throw this \<Longrightarrow> no_errors (findAllByBundle this bundle options linksToFollow)"
  by (simp_all add: never_throw_def findAllByBundle_def)

lemma no_errors_from_array: "no_errors (from_array xs)"
  by (simp add: no_errors_iff from_array_def image_iff)

lemma no_errors_widened: "no_errors source \<Longrightarrow> no_errors (widened up source)"
proof -
  assume a: "no_errors source"
  have "(t, Error e) \<notin> set (widened up source)" for t e
  proof
    assume "(t, Error e) \<in> set (widened up source)"
    then obtain n where "(t, n) \<in> set source" "map_notification (as_any up) n = Error e"
      by (auto simp: widened_def)
    then show False using a by (cases n) (auto simp: no_errors_iff)
  qed
  then show ?thesis by (simp add: no_errors_iff)
qed

text \<open>The projection that getThumbnailFor maps over the listing never throws.\<close>

lemma thumbnail_projection:
  "(case (if hasValue (payload bitstreamRD)
          then member (payload bitstreamRD) (\<lambda>list. Inr (hasValue (page list)))
          else Inr False) of
      Inl e \<Rightarrow> Inl e
    | Inr True \<Rightarrow>
        member (payload bitstreamRD) (\<lambda>list.
        member (page list) (\<lambda>bitstreams.
          Inr (RemoteData_new False False True None
                 (map_option AnyBitstream (at_index bitstreams 0)))))
    | Inr False \<Rightarrow> Inr (as_any AnyPaginatedList bitstreamRD)) =
   Inr (case payload bitstreamRD of
          None \<Rightarrow> as_any AnyPaginatedList bitstreamRD
        | Some list \<Rightarrow>
            (case page list of
               None \<Rightarrow> as_any AnyPaginatedList bitstreamRD
             | Some elements \<Rightarrow>
                 RemoteData_new False False True None
                   (map_option AnyBitstream (at_index elements 0))))"
  by (simp add: member_def hasValue_def split: option.splits)

lemma matching_projection:
  "(case (if hasValue (payload bitstreamRD)
          then member (payload bitstreamRD) (\<lambda>list. Inr (hasValue (page list)))
          else Inr False) of
      Inl e \<Rightarrow> Inl e
    | Inr True \<Rightarrow>
        member (payload bitstreamRD) (\<lambda>list.
        member (page list) (\<lambda>bitstreams.
          let matchingThumbnail =
                find (\<lambda>thumbnail. startsWith (name thumbnail) (name bitstreamInOriginal))
                  bitstreams
          in if hasValue matchingThumbnail then
               Inr (RemoteData_new False False True None
                      (map_option AnyBitstream matchingThumbnail))
             else
               Inr (RemoteData_new False False False
                      (Some (RemoteDataError_new 404 ''404''
                               ''No matching thumbnail found''))
                      None)))
    | Inr False \<Rightarrow> Inr (as_any AnyPaginatedList bitstreamRD)) =
   Inr (case payload bitstreamRD of
          None \<Rightarrow> as_any AnyPaginatedList bitstreamRD
        | Some list \<Rightarrow>
            (case page list of
               None \<Rightarrow> as_any AnyPaginatedList bitstreamRD
             | Some elements \<Rightarrow>
                 (case find (\<lambda>thumbnail. startsWith (name thumbnail) (name bitstreamInOriginal))
                         elements of
                    Some matchingThumbnail \<Rightarrow>
                      RemoteData_new False False True None (Some (AnyBitstream matchingThumbnail))
                  | None \<Rightarrow>
                      RemoteData_new False False False
                        (Some (RemoteDataError_new 404 ''404'' ''No matching thumbnail found''))
                        None)))"
  by (simp add: member_def hasValue_def Let_def split: option.splits)

lemma getThumbnailFor_total:
  "getThumbnailFor this item =
     switchMap (inner_first this) (\<lambda>bundleRD. Inr (
        case payload bundleRD of
          None \<Rightarrow> from_array [as_any AnyBundle bundleRD]
        | Some bundle \<Rightarrow>
            map_op (\<lambda>bitstreamRD. Inr (
               case payload bitstreamRD of
                 None \<Rightarrow> as_any AnyPaginatedList bitstreamRD
               | Some list \<Rightarrow>
                   (case page list of
                      None \<Rightarrow> as_any AnyPaginatedList bitstreamRD
                    | Some elements \<Rightarrow>
                        RemoteData_new False False True None
                          (map_option AnyBitstream (at_index elements 0)))))
              (findAllByHref this (href (bitstreams (links bundle)))
                 (Some \<lparr>elementsPerPage = Some 1, currentPage = None,
                        sortBy = None, filters = None\<rparr>) [])))
       (findByItemAndName this item ''THUMBNAIL'')"
  unfolding getThumbnailFor_def thumbnail_projection findAllByBundle_def
  by (rule arg_cong2[where f = "switchMap (inner_first this)"])
     (simp_all add: fun_eq_iff isNotEmpty_def member_def split: option.splits)

lemma getMatchingThumbnail_total:
  "getMatchingThumbnail this item bitstreamInOriginal =
     switchMap (inner_first this) (\<lambda>bundleRD. Inr (
        case payload bundleRD of
          None \<Rightarrow> from_array [as_any AnyBundle bundleRD]
        | Some bundle \<Rightarrow>
            map_op (\<lambda>bitstreamRD. Inr (
               case payload bitstreamRD of
                 None \<Rightarrow> as_any AnyPaginatedList bitstreamRD
               | Some list \<Rightarrow>
                   (case page list of
                      None \<Rightarrow> as_any AnyPaginatedList bitstreamRD
                    | Some elements \<Rightarrow>
                        (case find (\<lambda>thumbnail.
                                 startsWith (name thumbnail) (name bitstreamInOriginal))
                                elements of
                           Some matchingThumbnail \<Rightarrow>
                             RemoteData_new False False True None
                               (Some (AnyBitstream matchingThumbnail))
                         | None \<Rightarrow>
                             RemoteData_new False False False
                               (Some (RemoteDataError_new 404 ''404''
                                        ''No matching thumbnail found''))
                               None))))
              (findAllByHref this (href (bitstreams (links bundle)))
                 (Some \<lparr>elementsPerPage = Some MAX_SAFE_INTEGER, currentPage = None,
                        sortBy = None, filters = None\<rparr>) [])))
       (findByItemAndName this item ''THUMBNAIL'')"
  unfolding getMatchingThumbnail_def matching_projection findAllByBundle_def
  by (rule arg_cong2[where f = "switchMap (inner_first this)"])
     (simp_all add: fun_eq_iff isNotEmpty_def member_def split: option.splits)

lemma findAllByItemAndBundleName_total:
  "findAllByItemAndBundleName this item bundleName options linksToFollow =
     switchMap (inner_first this) (\<lambda>bundleRD. Inr (
        case payload bundleRD of
          None \<Rightarrow> from_array [as_any AnyBundle bundleRD]
        | Some bundle \<Rightarrow>
            widened AnyPaginatedList
              (findAllByHref this (href (bitstreams (links bundle))) options linksToFollow)))
       (findByItemAndName this item bundleName)"
  unfolding findAllByItemAndBundleName_def findAllByBundle_def
  by (rule arg_cong2[where f = "switchMap (inner_first this)"])
     (simp_all add: fun_eq_iff hasValue_def member_def split: option.splits)

lemma map_op_Inr_no_errors:
  "no_errors source \<Longrightarrow> no_errors (map_op (\<lambda>x. Inr (f x)) source)"
  by (rule map_op_total(2)) simp_all

lemma map_op_Inr_iff:
  assumes "no_errors source"
  shows "(d, Next y) \<in> set (map_op (\<lambda>x. Inr (f x)) source) \<longleftrightarrow>
         (\<exists>x. (d, Next x) \<in> set source \<and> y = f x)"
proof
  assume "(d, Next y) \<in> set (map_op (\<lambda>x. Inr (f x)) source)"
  from map_op_sound[OF this] show "\<exists>x. (d, Next x) \<in> set source \<and> y = f x"
    by auto
next
  assume "\<exists>x. (d, Next x) \<in> set source \<and> y = f x"
  then obtain x where x: "(d, Next x) \<in> set source" "y = f x" by blast
  show "(d, Next y) \<in> set (map_op (\<lambda>x. Inr (f x)) source)"
    by (rule map_op_complete[OF assms _ x(1)]) (simp_all add: x(2))
qed

lemma switchMap_Inr_no_errors:
  assumes "no_errors source"
    and "\<And>t x. (t, Next x) \<in> set source \<Longrightarrow> no_errors (P x)"
  shows "no_errors (switchMap first (\<lambda>x. Inr (P x)) source)"
  by (rule switchMap_total(2)[OF assms(1)]) (simp add: assms(2))

lemma switchMap_Inr_sound:
  assumes "(u, Next y) \<in> set (switchMap first (\<lambda>x. Inr (P x)) source)"
  shows "\<exists>t x d. (t, Next x) \<in> set source \<and> (d, Next y) \<in> set (P x) \<and> u = t + d"
  using switchMap_sound[OF assms] by auto

lemma switchMap_Inr_complete:
  assumes "source = earlier @ (t, Next x) # later"
    and "no_errors source"
    and "\<And>t x. (t, Next x) \<in> set source \<Longrightarrow> no_errors (P x)"
    and "(d, n) \<in> set (P x)" and "d = 0 \<or> in_time later (t + d)"
  shows "(t + d, n) \<in> set (switchMap first (\<lambda>x. Inr (P x)) source)"
  by (rule switchMap_complete[OF assms(1,2) _ _ assms(4,5)]) (simp_all add: assms(3))

text \<open>
  The three lookups share one shape: a wrapper of the bundle lookup without payload
  is passed on, a wrapper with a bundle switches to an inner observable.
\<close>

lemma bundle_switch_no_errors:
  assumes "never_throw this"
    and "\<And>bundle. no_errors (inner bundle)"
  shows "no_errors (switchMap (inner_first this) (\<lambda>bundleRD. Inr (
           case payload bundleRD of
             None \<Rightarrow> from_array [as_any AnyBundle bundleRD]
           | Some bundle \<Rightarrow> inner bundle))
          (findByItemAndName this item bundleName))"
proof (rule switchMap_Inr_no_errors)
  show "no_errors (findByItemAndName this item bundleName)"
    using assms(1) by (rule never_throwD)
next
  fix t bundleRD
  show "no_errors (case payload bundleRD of
          None \<Rightarrow> from_array [as_any AnyBundle bundleRD]
        | Some bundle \<Rightarrow> inner bundle)"
    by (cases "payload bundleRD") (simp_all add: no_errors_from_array assms(2))
qed

lemma bundle_switch_inner:
  assumes "never_throw this"
    and "\<And>bundle. no_errors (inner bundle)"
    and "findByItemAndName this item bundleName = earlier @ (t, Next bundleRD) # later"
    and "payload bundleRD = Some bundle"
    and "(d, n) \<in> set (inner bundle)"
    and "d = 0 \<or> in_time later (t + d)"
  shows "(t + d, n) \<in> set (switchMap (inner_first this) (\<lambda>bundleRD. Inr (
           case payload bundleRD of
             None \<Rightarrow> from_array [as_any AnyBundle bundleRD]
           | Some bundle \<Rightarrow> inner bundle))
          (findByItemAndName this item bundleName))"
proof (rule switchMap_Inr_complete[OF assms(3)])
  show "no_errors (findByItemAndName this item bundleName)"
    using assms(1) by (rule never_throwD)
next
  fix t' x
  show "no_errors (case payload x of
          None \<Rightarrow> from_array [as_any AnyBundle x]
        | Some bundle \<Rightarrow> inner bundle)"
    by (cases "payload x") (simp_all add: no_errors_from_array assms(2))
next
  show "(d, n) \<in> set (case payload bundleRD of
          None \<Rightarrow> from_array [as_any AnyBundle bundleRD]
        | Some bundle \<Rightarrow> inner bundle)"
    using assms(4,5) by simp
next
  show "d = 0 \<or> in_time later (t + d)" by (rule assms(6))
qed

lemma bundle_switch_passed_on:
  assumes "never_throw this"
    and "\<And>bundle. no_errors (inner bundle)"
    and "findByItemAndName this item bundleName = earlier @ (t, Next bundleRD) # later"
    and "payload bundleRD = None"
  shows "(t, Next (as_any AnyBundle bundleRD)) \<in> set (switchMap (inner_first this) (\<lambda>bundleRD. Inr (
           case payload bundleRD of
             None \<Rightarrow> from_array [as_any AnyBundle bundleRD]
           | Some bundle \<Rightarrow> inner bundle))
          (findByItemAndName this item bundleName))"
proof -
  have "(t + 0, Next (as_any AnyBundle bundleRD)) \<in> set (switchMap (inner_first this) (\<lambda>bundleRD. Inr (
           case payload bundleRD of
             None \<Rightarrow> from_array [as_any AnyBundle bundleRD]
           | Some bundle \<Rightarrow> inner bundle))
          (findByItemAndName this item bundleName))"
  proof (rule switchMap_Inr_complete[OF assms(3)])
    show "no_errors (findByItemAndName this item bundleName)"
      using assms(1) by (rule never_throwD)
  next
    fix t' x
    show "no_errors (case payload x of
            None \<Rightarrow> from_array [as_any AnyBundle x]
          | Some bundle \<Rightarrow> inner bundle)"
      by (cases "payload x") (simp_all add: no_errors_from_array assms(2))
  next
    show "(0, Next (as_any AnyBundle bundleRD)) \<in> set (case payload bundleRD of
            None \<Rightarrow> from_array [as_any AnyBundle bundleRD]
          | Some bundle \<Rightarrow> inner bundle)"
      using assms(4) by (simp add: from_array_def)
  next
    show "0 = (0::nat) \<or> in_time later (t + 0)" by simp
  qed
  then show ?thesis by simp
qed

lemma bundle_switch_sound:
  assumes "(u, Next w) \<in> set (switchMap (inner_first this) (\<lambda>bundleRD. Inr (
           case payload bundleRD of
             None \<Rightarrow> from_array [as_any AnyBundle bundleRD]
           | Some bundle \<Rightarrow> inner bundle))
          (findByItemAndName this item bundleName))"
  shows "\<exists>t bundleRD. (t, Next bundleRD) \<in> set (findByItemAndName this item bundleName) \<and>
           (case payload bundleRD of
              None \<Rightarrow> u = t \<and> w = as_any AnyBundle bundleRD
            | Some bundle \<Rightarrow> \<exists>d. (d, Next w) \<in> set (inner bundle) \<and> u = t + d)"
proof -
  from switchMap_Inr_sound[OF assms] obtain t bundleRD d where
    *: "(t, Next bundleRD) \<in> set (findByItemAndName this item bundleName)"
       "(d, Next w) \<in> set (case payload bundleRD of
            None \<Rightarrow> from_array [as_any AnyBundle bundleRD]
          | Some bundle \<Rightarrow> inner bundle)"
       "u = t + d"
    by blast
  have "case payload bundleRD of
              None \<Rightarrow> u = t \<and> w = as_any AnyBundle bundleRD
            | Some bundle \<Rightarrow> \<exists>d. (d, Next w) \<in> set (inner bundle) \<and> u = t + d"
    using *(2,3) by (cases "payload bundleRD") (auto simp: from_array_def)
  with *(1) show ?thesis by blast
qed

section \<open>What each lookup emits\<close>

subsection \<open>Nothing is thrown\<close>

lemma getThumbnailFor_no_errors:
  assumes "never_throw this"
  shows "no_errors (getThumbnailFor this item)"
  unfolding getThumbnailFor_total
  by (rule bundle_switch_no_errors[OF assms], rule map_op_Inr_no_errors,
      rule never_throwD(2)[OF assms])

lemma getMatchingThumbnail_no_errors:
  assumes "never_throw this"
  shows "no_errors (getMatchingThumbnail this item bitstreamInOriginal)"
  unfolding getMatchingThumbnail_total
  by (rule bundle_switch_no_errors[OF assms], rule map_op_Inr_no_errors,
      rule never_throwD(2)[OF assms])

lemma findAllByItemAndBundleName_no_errors:
  assumes "never_throw this"
  shows "no_errors (findAllByItemAndBundleName this item bundleName options linksToFollow)"
  unfolding findAllByItemAndBundleName_total
  by (rule bundle_switch_no_errors[OF assms], rule no_errors_widened,
      rule never_throwD(2)[OF assms])

subsection \<open>A wrapper of the bundle lookup without payload is passed on\<close>

lemma bundle_switch_passed_on_member:
  assumes "never_throw this"
    and "\<And>bundle. no_errors (inner bundle)"
    and "(t, Next bundleRD) \<in> set (findByItemAndName this item bundleName)"
    and "payload bundleRD = None"
  shows "(t, Next (as_any AnyBundle bundleRD)) \<in> set (switchMap (inner_first this) (\<lambda>bundleRD. Inr (
           case payload bundleRD of
             None \<Rightarrow> from_array [as_any AnyBundle bundleRD]
           | Some bundle \<Rightarrow> inner bundle))
          (findByItemAndName this item bundleName))"
proof -
  from split_list[OF assms(3)] obtain earlier later where
    "findByItemAndName this item bundleName = earlier @ (t, Next bundleRD) # later"
    by blast
  then show ?thesis
    by (rule bundle_switch_passed_on[OF assms(1,2) _ assms(4)])
qed

lemma getThumbnailFor_passes_on:
  assumes "never_throw this"
    and "(t, Next bundleRD) \<in> set (findByItemAndName this item ''THUMBNAIL'')"
    and "payload bundleRD = None"
  shows "(t, Next (as_any AnyBundle bundleRD)) \<in> set (getThumbnailFor this item)"
  unfolding getThumbnailFor_total
  by (rule bundle_switch_passed_on_member[OF assms(1) _ assms(2,3)],
      rule map_op_Inr_no_errors, rule never_throwD(2)[OF assms(1)])

lemma getMatchingThumbnail_passes_on:
  assumes "never_throw this"
    and "(t, Next bundleRD) \<in> set (findByItemAndName this item ''THUMBNAIL'')"
    and "payload bundleRD = None"
  shows "(t, Next (as_any AnyBundle bundleRD))
         \<in> set (getMatchingThumbnail this item bitstreamInOriginal)"
  unfolding getMatchingThumbnail_total
  by (rule bundle_switch_passed_on_member[OF assms(1) _ assms(2,3)],
      rule map_op_Inr_no_errors, rule never_throwD(2)[OF assms(1)])

lemma findAllByItemAndBundleName_passes_on:
  assumes "never_throw this"
    and "(t, Next bundleRD) \<in> set (findByItemAndName this item bundleName)"
    and "payload bundleRD = None"
  shows "(t, Next (as_any AnyBundle bundleRD))
         \<in> set (findAllByItemAndBundleName this item bundleName options linksToFollow)"
  unfolding findAllByItemAndBundleName_total
  by (rule bundle_switch_passed_on_member[OF assms(1) _ assms(2,3)],
      rule no_errors_widened, rule never_throwD(2)[OF assms(1)])

lemma Failed_as_any: "Failed rd \<Longrightarrow> Failed (as_any up rd) \<and> error (as_any up rd) = error rd"
  by (simp add: Failed_def as_any_def)

subsection \<open>A wrapper of the listing that arrives in time is processed\<close>

lemma getThumbnailFor_listing:
  assumes "never_throw this"
    and "findByItemAndName this item ''THUMBNAIL'' = earlier @ (t, Next bundleRD) # later"
    and "payload bundleRD = Some bundle"
    and "(d, Next bitstreamRD) \<in> set (findAllByHref this (href (bitstreams (links bundle)))
           (Some \<lparr>elementsPerPage = Some 1, currentPage = None,
                  sortBy = None, filters = None\<rparr>) [])"
    and "d = 0 \<or> in_time later (t + d)"
  shows "(t + d, Next (
           case payload bitstreamRD of
             None \<Rightarrow> as_any AnyPaginatedList bitstreamRD
           | Some list \<Rightarrow>
               (case page list of
                  None \<Rightarrow> as_any AnyPaginatedList bitstreamRD
                | Some elements \<Rightarrow>
                    RemoteData_new False False True None
                      (map_option AnyBitstream (at_index elements 0)))))
         \<in> set (getThumbnailFor this item)"
  unfolding getThumbnailFor_total
proof (rule bundle_switch_inner[OF assms(1) _ assms(2,3) _ assms(5)])
  fix b
  show "no_errors (map_op (\<lambda>bitstreamRD. Inr (
               case payload bitstreamRD of
                 None \<Rightarrow> as_any AnyPaginatedList bitstreamRD
               | Some list \<Rightarrow>
                   (case page list of
                      None \<Rightarrow> as_any AnyPaginatedList bitstreamRD
                    | Some elements \<Rightarrow>
                        RemoteData_new False False True None
                          (map_option AnyBitstream (at_index elements 0)))))
              (findAllByHref this (href (bitstreams (links b)))
                 (Some \<lparr>elementsPerPage = Some 1, currentPage = None,
                        sortBy = None, filters = None\<rparr>) []))"
    by (rule map_op_Inr_no_errors) (rule never_throwD(2)[OF assms(1)])
next
  show "(d, Next (
           case payload bitstreamRD of
             None \<Rightarrow> as_any AnyPaginatedList bitstreamRD
           | Some list \<Rightarrow>
               (case page list of
                  None \<Rightarrow> as_any AnyPaginatedList bitstreamRD
                | Some elements \<Rightarrow>
                    RemoteData_new False False True None
                      (map_option AnyBitstream (at_index elements 0)))))
        \<in> set (map_op (\<lambda>bitstreamRD. Inr (
               case payload bitstreamRD of
                 None \<Rightarrow> as_any AnyPaginatedList bitstreamRD
               | Some list \<Rightarrow>
                   (case page list of
                      None \<Rightarrow> as_any AnyPaginatedList bitstreamRD
                    | Some elements \<Rightarrow>
                        RemoteData_new False False True None
                          (map_option AnyBitstream (at_index elements 0)))))
              (findAllByHref this (href (bitstreams (links bundle)))
                 (Some \<lparr>elementsPerPage = Some 1, currentPage = None,
                        sortBy = None, filters = None\<rparr>) []))"
    unfolding map_op_Inr_iff[OF never_throwD(2)[OF assms(1)]]
    using assms(4) by blast
qed

lemma getMatchingThumbnail_listing:
  assumes "never_throw this"
    and "findByItemAndName this item ''THUMBNAIL'' = earlier @ (t, Next bundleRD) # later"
    and "payload bundleRD = Some bundle"
    and "(d, Next bitstreamRD) \<in> set (findAllByHref this (href (bitstreams (links bundle)))
           (Some \<lparr>elementsPerPage = Some MAX_SAFE_INTEGER, currentPage = None,
                  sortBy = None, filters = None\<rparr>) [])"
    and "d = 0 \<or> in_time later (t + d)"
  shows "(t + d, Next (
           case payload bitstreamRD of
             None \<Rightarrow> as_any AnyPaginatedList bitstreamRD
           | Some list \<Rightarrow>
               (case page list of
                  None \<Rightarrow> as_any AnyPaginatedList bitstreamRD
                | Some elements \<Rightarrow>
                    (case find (\<lambda>thumbnail.
                             startsWith (name thumbnail) (name bitstreamInOriginal))
                            elements of
                       Some matchingThumbnail \<Rightarrow>
                         RemoteData_new False False True None
                           (Some (AnyBitstream matchingThumbnail))
                     | None \<Rightarrow>
                         RemoteData_new False False False
                           (Some (RemoteDataError_new 404 ''404''
                                    ''No matching thumbnail found''))
                           None))))
         \<in> set (getMatchingThumbnail this item bitstreamInOriginal)"
  unfolding getMatchingThumbnail_total
proof (rule bundle_switch_inner[OF assms(1) _ assms(2,3) _ assms(5)])
  fix b
  show "no_errors (map_op (\<lambda>bitstreamRD. Inr (
           case payload bitstreamRD of
             None \<Rightarrow> as_any AnyPaginatedList bitstreamRD
           | Some list \<Rightarrow>
               (case page list of
                  None \<Rightarrow> as_any AnyPaginatedList bitstreamRD
                | Some elements \<Rightarrow>
                    (case find (\<lambda>thumbnail.
                             startsWith (name thumbnail) (name bitstreamInOriginal))
                            elements of
                       Some matchingThumbnail \<Rightarrow>
                         RemoteData_new False False True None
                           (Some (AnyBitstream matchingThumbnail))
                     | None \<Rightarrow>
                         RemoteData_new False False False
                           (Some (RemoteDataError_new 404 ''404''
                                    ''No matching thumbnail found''))
                           None))))
              (findAllByHref this (href (bitstreams (links b)))
                 (Some \<lparr>elementsPerPage = Some MAX_SAFE_INTEGER, currentPage = None,
                        sortBy = None, filters = None\<rparr>) []))"
    by (rule map_op_Inr_no_errors) (rule never_throwD(2)[OF assms(1)])
next
  show "(d, Next (
           case payload bitstreamRD of
             None \<Rightarrow> as_any AnyPaginatedList bitstreamRD
           | Some list \<Rightarrow>
               (case page list of
                  None \<Rightarrow> as_any AnyPaginatedList bitstreamRD
                | Some elements \<Rightarrow>
                    (case find (\<lambda>thumbnail.
                             startsWith (name thumbnail) (name bitstreamInOriginal))
                            elements of
                       Some matchingThumbnail \<Rightarrow>
                         RemoteData_new False False True None
                           (Some (AnyBitstream matchingThumbnail))
                     | None \<Rightarrow>
                         RemoteData_new False False False
                           (Some (RemoteDataError_new 404 ''404''
                                    ''No matching thumbnail found''))
                           None))))
        \<in> set (map_op (\<lambda>bitstreamRD. Inr (
           case payload bitstreamRD of
             None \<Rightarrow> as_any AnyPaginatedList bitstreamRD
           | Some list \<Rightarrow>
               (case page list of
                  None \<Rightarrow> as_any AnyPaginatedList bitstreamRD
                | Some elements \<Rightarrow>
                    (case find (\<lambda>thumbnail.
                             startsWith (name thumbnail) (name bitstreamInOriginal))
                            elements of
                       Some matchingThumbnail \<Rightarrow>
                         RemoteData_new False False True None
                           (Some (AnyBitstream matchingThumbnail))
                     | None \<Rightarrow>
                         RemoteData_new False False False
                           (Some (RemoteDataError_new 404 ''404''
                                    ''No matching thumbnail found''))
                           None))))
              (findAllByHref this (href (bitstreams (links bundle)))
                 (Some \<lparr>elementsPerPage = Some MAX_SAFE_INTEGER, currentPage = None,
                        sortBy = None, filters = None\<rparr>) []))"
    unfolding map_op_Inr_iff[OF never_throwD(2)[OF assms(1)]]
    using assms(4) by blast
qed

lemma findAllByItemAndBundleName_listing:
  assumes "never_throw this"
    and "findByItemAndName this item bundleName = earlier @ (t, Next bundleRD) # later"
    and "payload bundleRD = Some bundle"
    and "(d, Next bitstreamRD) \<in> set (findAllByHref this (href (bitstreams (links bundle)))
           options linksToFollow)"
    and "d = 0 \<or> in_time later (t + d)"
  shows "(t + d, Next (as_any AnyPaginatedList bitstreamRD))
         \<in> set (findAllByItemAndBundleName this item bundleName options linksToFollow)"
  unfolding findAllByItemAndBundleName_total
proof (rule bundle_switch_inner[OF assms(1) _ assms(2,3) _ assms(5)])
  fix b
  show "no_errors (widened AnyPaginatedList
          (findAllByHref this (href (bitstreams (links b))) options linksToFollow))"
    by (rule no_errors_widened) (rule never_throwD(2)[OF assms(1)])
next
  show "(d, Next (as_any AnyPaginatedList bitstreamRD))
        \<in> set (widened AnyPaginatedList
              (findAllByHref this (href (bitstreams (links bundle))) options linksToFollow))"
    using assms(4) by (force simp: widened_def)
qed

lemma find_first:
  assumes "\<forall>x \<in> set before. \<not> P x" and "P match"
  shows "find P (before @ match # after) = Some match"
  using assms by (induction before) simp_all

lemma find_some_match:
  assumes "x \<in> set xs" and "P x"
  shows "\<exists>m. find P xs = Some m \<and> m \<in> set xs \<and> P m"
  using assms by (induction xs) auto

lemma find_none: "(\<forall>x \<in> set xs. \<not> P x) \<Longrightarrow> find P xs = None"
  by (simp add: find_None_iff)

subsection \<open>Every emitted wrapper comes from a wrapper of a collaborator\<close>

lemma listing_switch_sound:
  assumes "(u, Next w) \<in> set (switchMap (inner_first this) (\<lambda>bundleRD. Inr (
           case payload bundleRD of
             None \<Rightarrow> from_array [as_any AnyBundle bundleRD]
           | Some bundle \<Rightarrow>
               map_op (\<lambda>bitstreamRD. Inr (f bitstreamRD))
                 (findAllByHref this (href (bitstreams (links bundle))) options linksToFollow)))
          (findByItemAndName this item bundleName))"
  shows "\<exists>t bundleRD. (t, Next bundleRD) \<in> set (findByItemAndName this item bundleName) \<and>
           (case payload bundleRD of
              None \<Rightarrow> u = t \<and> w = as_any AnyBundle bundleRD
            | Some bundle \<Rightarrow>
                \<exists>d bitstreamRD.
                  (d, Next bitstreamRD) \<in> set (findAllByHref this (href (bitstreams (links bundle)))
                     options linksToFollow) \<and>
                  u = t + d \<and> w = f bitstreamRD)"
proof -
  from bundle_switch_sound[OF assms]
  obtain t bundleRD where
    outer: "(t, Next bundleRD) \<in> set (findByItemAndName this item bundleName)"
    and rest: "case payload bundleRD of
        None \<Rightarrow> u = t \<and> w = as_any AnyBundle bundleRD
      | Some bundle \<Rightarrow>
          \<exists>d. (d, Next w) \<in> set (map_op (\<lambda>bitstreamRD. Inr (f bitstreamRD))
                 (findAllByHref this (href (bitstreams (links bundle))) options linksToFollow)) \<and>
              u = t + d"
    by blast
  have "case payload bundleRD of
              None \<Rightarrow> u = t \<and> w = as_any AnyBundle bundleRD
            | Some bundle \<Rightarrow>
                \<exists>d bitstreamRD.
                  (d, Next bitstreamRD) \<in> set (findAllByHref this (href (bitstreams (links bundle)))
                     options linksToFollow) \<and>
                  u = t + d \<and> w = f bitstreamRD"
  proof (cases "payload bundleRD")
    case None
    with rest show ?thesis by simp
  next
    case (Some b)
    with rest obtain d where
      d: "(d, Next w) \<in> set (map_op (\<lambda>bitstreamRD. Inr (f bitstreamRD))
            (findAllByHref this (href (bitstreams (links b))) options linksToFollow))"
         "u = t + d"
      by auto
    from map_op_sound[OF d(1)] d(2) Some show ?thesis by auto
  qed
  with outer show ?thesis by blast
qed

text \<open>
  getThumbnailFor has no \<^verbatim>\<open>new RemoteDataError\<close>: the error of a wrapper that it emits
  is the error of a wrapper that the bundle lookup or the listing delivered.
\<close>

lemma getThumbnailFor_makes_no_error:
  assumes a: "(u, Next w) \<in> set (getThumbnailFor this item) \<and> error w = Some made"
  shows "(\<exists>t' rd. (t', Next rd) \<in> set (findByItemAndName this item ''THUMBNAIL'') \<and>
                      error rd = Some made) \<or>
            (\<exists>url options d rd. (d, Next rd) \<in> set (findAllByHref this url options []) \<and>
                      error rd = Some made)"
proof -
  from listing_switch_sound[OF a[THEN conjunct1, unfolded getThumbnailFor_total]]
  obtain t' rd where
    outer: "(t', Next rd) \<in> set (findByItemAndName this item ''THUMBNAIL'')"
    and rest: "case payload rd of
        None \<Rightarrow> u = t' \<and> w = as_any AnyBundle rd
      | Some bundle \<Rightarrow>
          \<exists>d bitstreamRD.
            (d, Next bitstreamRD) \<in> set (findAllByHref this (href (bitstreams (links bundle)))
               (Some \<lparr>elementsPerPage = Some 1, currentPage = None,
                      sortBy = None, filters = None\<rparr>) []) \<and>
            u = t' + d \<and>
            w = (case payload bitstreamRD of
                   None \<Rightarrow> as_any AnyPaginatedList bitstreamRD
                 | Some list \<Rightarrow>
                     (case page list of
                        None \<Rightarrow> as_any AnyPaginatedList bitstreamRD
                      | Some elements \<Rightarrow>
                          RemoteData_new False False True None
                            (map_option AnyBitstream (at_index elements 0))))"
    by blast
  show "(\<exists>t' rd. (t', Next rd) \<in> set (findByItemAndName this item ''THUMBNAIL'') \<and>
                      error rd = Some made) \<or>
            (\<exists>url options d rd. (d, Next rd) \<in> set (findAllByHref this url options []) \<and>
                      error rd = Some made)"
  proof (cases "payload rd")
    case None
    with rest a have "error rd = Some made" by (simp add: as_any_def)
    with outer show ?thesis by blast
  next
    case (Some b)
    with rest obtain d bitstreamRD where
      inner: "(d, Next bitstreamRD) \<in> set (findAllByHref this (href (bitstreams (links b)))
               (Some \<lparr>elementsPerPage = Some 1, currentPage = None,
                      sortBy = None, filters = None\<rparr>) [])"
      and w: "w = (case payload bitstreamRD of
                   None \<Rightarrow> as_any AnyPaginatedList bitstreamRD
                 | Some list \<Rightarrow>
                     (case page list of
                        None \<Rightarrow> as_any AnyPaginatedList bitstreamRD
                      | Some elements \<Rightarrow>
                          RemoteData_new False False True None
                            (map_option AnyBitstream (at_index elements 0))))"
      by auto
    have "error bitstreamRD = Some made"
      using w a by (auto simp: as_any_def RemoteData_new_def split: option.splits)
    with inner show ?thesis by blast
  qed
qed

subsection \<open>The switch at work\<close>

text \<open>
  The lookup delivers the bundle at ticks 1 and 3, and the listing answers two ticks
  after its subscription. The answer to the first subscription is due at tick 3, the
  tick of the lookup's second wrapper: it reaches the subscriber only when the event
  loop processes it first. The answer to the second subscription, at tick 5, always
  does.
\<close>

lemma getThumbnailFor_switches:
  "getThumbnailFor
     \<lparr>findByItemAndName = (\<lambda>item bundleName.
        [(1, Next (succeeded THUMBNAIL_bundle)), (3, Next (succeeded THUMBNAIL_bundle))]),
      findAllByHref = (\<lambda>url options linksToFollow.
        [(2, Next (succeeded (first_page options [cover_jpg])))]),
      inner_first = (\<lambda>u i. False)\<rparr>
     ''item-1'' =
   [(5, Next \<lparr>isRequestPending = False, isResponsePending = False, hasSucceeded = True,
               error = None, payload = Some (AnyBitstream cover_jpg)\<rparr>)]"
  "getThumbnailFor
     \<lparr>findByItemAndName = (\<lambda>item bundleName.
        [(1, Next (succeeded THUMBNAIL_bundle)), (3, Next (succeeded THUMBNAIL_bundle))]),
      findAllByHref = (\<lambda>url options linksToFollow.
        [(2, Next (succeeded (first_page options [cover_jpg])))]),
      inner_first = (\<lambda>u i. True)\<rparr>
     ''item-1'' =
   [(3, Next \<lparr>isRequestPending = False, isResponsePending = False, hasSucceeded = True,
               error = None, payload = Some (AnyBitstream cover_jpg)\<rparr>),
    (5, Next \<lparr>isRequestPending = False, isResponsePending = False, hasSucceeded = True,
               error = None, payload = Some (AnyBitstream cover_jpg)\<rparr>)]"
  by (simp_all add: getThumbnailFor_def findAllByBundle_def succeeded_def first_page_def
      page_size_def RemoteData_new_def switchMap_def map_op_def delivered_def
      in_time_def at_tie_def member_def hasValue_def isNotEmpty_def at_index_def
      THUMBNAIL_bundle_def)

section \<open>The claims\<close>

text \<open>
  In the statements below the trace of the bundle lookup is written
  \<open>earlier @ (t, Next bundleRD) # later\<close>: the lookup delivers the wrapper
  \<open>bundleRD\<close> at tick \<open>t\<close>. A wrapper that the listing delivers \<open>d\<close> ticks
  after its subscription is due at tick \<open>t + d\<close>. It reaches the subscriber of the
  service, whatever the order \<open>inner_first this\<close> of the event loop, provided
  \<open>in_time later (t + d)\<close>: it is due strictly before the next notification of the
  lookup, so that switchMap has not yet moved on. For the last wrapper of the lookup
  (\<open>later = []\<close>) this always holds. \<open>never_throw this\<close> is the contract of the
  collaborators: their observables deliver wrappers, never an error notification.
\<close>

text \<open>
  C1: when the THUMBNAIL bundle lookup delivers a wrapper with a non-empty payload and
  the listing of that bundle's bitstreams delivers, strictly before the lookup's next
  notification, a page on which no bitstream has a name that starts with the name of the original
  bitstream, getMatchingThumbnail emits a Failed wrapper (\<open>hasSucceeded = False\<close>)
  whose error has status code 404 and the message "No matching thumbnail found".
\<close>

theorem getMatchingThumbnail_no_match:
  assumes "never_throw this"
    and "findByItemAndName this item ''THUMBNAIL'' = earlier @ (t, Next bundleRD) # later"
    and "isNotEmpty (payload bundleRD)"
    and "payload bundleRD = Some bundle"
    and "(d, Next bitstreamRD) \<in> set (findAllByHref this (href (bitstreams (links bundle)))
           (Some \<lparr>elementsPerPage = Some MAX_SAFE_INTEGER, currentPage = None,
                  sortBy = None, filters = None\<rparr>) [])"
    and "payload bitstreamRD = Some list"
    and "page list = Some thumbnails"
    and "\<forall>thumbnail \<in> set thumbnails.
           \<not> startsWith (name thumbnail) (name bitstreamInOriginal)"
    and "in_time later (t + d)"
  shows "(t + d, Next \<lparr>isRequestPending = False, isResponsePending = False,
                        hasSucceeded = False,
                        error = Some \<lparr>statusCode = 404, statusText = ''404'',
                                      message = ''No matching thumbnail found''\<rparr>,
                        payload = None\<rparr>)
         \<in> set (getMatchingThumbnail this item bitstreamInOriginal)"
  using getMatchingThumbnail_listing[OF assms(1,2,4,5) disjI2[OF assms(9)], of bitstreamInOriginal]
    assms(6,7) find_none[OF assms(8)]
  by (simp add: RemoteData_new_def RemoteDataError_new_def)

theorem getMatchingThumbnail_no_match_witness:
  "never_throw (repository (succeeded THUMBNAIL_bundle) [cover_jpg]) \<and>
   findByItemAndName (repository (succeeded THUMBNAIL_bundle) [cover_jpg])
       ''item-1'' ''THUMBNAIL'' =
     [(0, Next pending)] @ (1, Next (succeeded THUMBNAIL_bundle)) # [] \<and>
   isNotEmpty (payload (succeeded THUMBNAIL_bundle)) \<and>
   \<not> startsWith (name cover_jpg) (name report_pdf) \<and>
   (3, Next \<lparr>isRequestPending = False, isResponsePending = False,
               hasSucceeded = False,
               error = Some \<lparr>statusCode = 404, statusText = ''404'',
                             message = ''No matching thumbnail found''\<rparr>,
               payload = None\<rparr>)
     \<in> set (getMatchingThumbnail (repository (succeeded THUMBNAIL_bundle) [cover_jpg])
              ''item-1'' report_pdf)"
  using getMatchingThumbnail_no_match[of
      "repository (succeeded THUMBNAIL_bundle) [cover_jpg]" "''item-1''"
      "[(0, Next pending)]" 1 "succeeded THUMBNAIL_bundle" "[]" THUMBNAIL_bundle
      2 "succeeded (first_page (Some \<lparr>elementsPerPage = Some MAX_SAFE_INTEGER,
                  currentPage = None, sortBy = None, filters = None\<rparr>) [cover_jpg])"
      "first_page (Some \<lparr>elementsPerPage = Some MAX_SAFE_INTEGER, currentPage = None,
                  sortBy = None, filters = None\<rparr>) [cover_jpg]"
      "[cover_jpg]" report_pdf]
  by (simp add: never_throw_def repository_def succeeded_def RemoteData_new_def
      first_page_def page_size_def isNotEmpty_def in_time_def at_tie_def numeral_3_eq_3
      MAX_SAFE_INTEGER_def startsWith_def cover_jpg_def report_pdf_def)

text \<open>
  C2, as it stands, fails: for an item whose THUMBNAIL bundle is found and whose page
  of size 1 is empty, the first element of the page is absent, yet the trace of
  getThumbnailFor holds two pending wrappers and a wrapper that has succeeded; none
  is a Failed wrapper and none carries a 404 error.
\<close>

theorem getThumbnailFor_synthesizes_404_counterexample:
  "page (first_page (Some \<lparr>elementsPerPage = Some 1, currentPage = None,
                           sortBy = None, filters = None\<rparr>) []) = Some [] \<and>
   at_index ([] :: Bitstream list) 0 = None \<and>
   getThumbnailFor (repository (succeeded THUMBNAIL_bundle) []) ''item-1'' =
     [(0, Next \<lparr>isRequestPending = True, isResponsePending = False, hasSucceeded = False,
                 error = None, payload = None\<rparr>),
      (1, Next \<lparr>isRequestPending = True, isResponsePending = False, hasSucceeded = False,
                 error = None, payload = None\<rparr>),
      (3, Next \<lparr>isRequestPending = False, isResponsePending = False, hasSucceeded = True,
                 error = None, payload = None\<rparr>)]"
  by (simp add: getThumbnailFor_def findAllByBundle_def repository_def succeeded_def
      pending_def first_page_def page_size_def RemoteData_new_def switchMap_def map_op_def
      delivered_def in_time_def at_tie_def from_array_def member_def hasValue_def
      isNotEmpty_def as_any_def at_index_def THUMBNAIL_bundle_def)

text \<open>
  C2, amended: when the THUMBNAIL bundle lookup delivers a Failed wrapper with an empty
  payload and a 404 error (the bundle is absent), getThumbnailFor emits that Failed
  wrapper, carrying the 404 error with which the lookup reported the absence.
\<close>

theorem getThumbnailFor_failed_lookup:
  assumes "never_throw this"
    and "in_time_order (findByItemAndName this item ''THUMBNAIL'')"
    and "(t, Next bundleRD) \<in> set (findByItemAndName this item ''THUMBNAIL'')"
    and "\<not> isNotEmpty (payload bundleRD)"
    and "\<not> hasSucceeded bundleRD"
    and "error bundleRD = Some info"
    and "statusCode info = 404"
  shows "\<exists>w. (t, Next w) \<in> set (getThumbnailFor this item) \<and>
             \<not> hasSucceeded w \<and> error w = Some info \<and> statusCode info = 404 \<and>
             payload w = None"
proof -
  have empty: "payload bundleRD = None"
    using assms(4) by (cases "payload bundleRD") (simp_all add: isNotEmpty_def)
  have "(t, Next (as_any AnyBundle bundleRD)) \<in> set (getThumbnailFor this item)"
    by (rule getThumbnailFor_passes_on[OF assms(1,3) empty])
  moreover have "\<not> hasSucceeded (as_any AnyBundle bundleRD)"
    "error (as_any AnyBundle bundleRD) = Some info"
    "payload (as_any AnyBundle bundleRD) = None"
    using assms(5,6) empty by (simp_all add: as_any_def)
  ultimately show ?thesis
    using assms(7) by blast
qed

theorem getThumbnailFor_failed_lookup_witness:
  "never_throw (repository (failed 404 ''404'' ''No matching bundle found'') [cover_jpg]) \<and>
   in_time_order (findByItemAndName
     (repository (failed 404 ''404'' ''No matching bundle found'') [cover_jpg])
     ''item-1'' ''THUMBNAIL'') \<and>
   (1, Next (failed 404 ''404'' ''No matching bundle found''))
     \<in> set (findByItemAndName
              (repository (failed 404 ''404'' ''No matching bundle found'') [cover_jpg])
              ''item-1'' ''THUMBNAIL'') \<and>
   \<not> isNotEmpty (payload (failed 404 ''404'' ''No matching bundle found'' :: Bundle RemoteData)) \<and>
   \<not> hasSucceeded (failed 404 ''404'' ''No matching bundle found'' :: Bundle RemoteData) \<and>
   error (failed 404 ''404'' ''No matching bundle found'' :: Bundle RemoteData) =
     Some \<lparr>statusCode = 404, statusText = ''404'', message = ''No matching bundle found''\<rparr> \<and>
   (1, Next \<lparr>isRequestPending = False, isResponsePending = False, hasSucceeded = False,
               error = Some \<lparr>statusCode = 404, statusText = ''404'',
                             message = ''No matching bundle found''\<rparr>,
               payload = None\<rparr>)
     \<in> set (getThumbnailFor
              (repository (failed 404 ''404'' ''No matching bundle found'') [cover_jpg])
              ''item-1'')"
proof -
  from getThumbnailFor_failed_lookup[of
      "repository (failed 404 ''404'' ''No matching bundle found'') [cover_jpg]" "''item-1''"
      1 "failed 404 ''404'' ''No matching bundle found''"
      "\<lparr>statusCode = 404, statusText = ''404'', message = ''No matching bundle found''\<rparr>"]
  obtain w where
    "(1, Next w) \<in> set (getThumbnailFor
        (repository (failed 404 ''404'' ''No matching bundle found'') [cover_jpg]) ''item-1'')"
    "\<not> hasSucceeded w"
    "error w = Some \<lparr>statusCode = 404, statusText = ''404'',
                       message = ''No matching bundle found''\<rparr>"
    "payload w = None"
    by (auto simp: never_throw_def repository_def failed_def RemoteData_new_def
        RemoteDataError_new_def isNotEmpty_def in_time_order_def)
  then show ?thesis
    by (simp add: never_throw_def repository_def failed_def pending_def RemoteData_new_def
        RemoteDataError_new_def isNotEmpty_def in_time_order_def getThumbnailFor_def
        findAllByBundle_def switchMap_def map_op_def delivered_def in_time_def at_tie_def
        from_array_def member_def hasValue_def as_any_def)
qed

text \<open>
  C3: when the THUMBNAIL bundle lookup delivers a wrapper with a non-empty payload and
  the listing of that bundle's bitstreams, requested with \<^verbatim>\<open>elementsPerPage = 1\<close>,
  delivers a wrapper whose page has at least one element strictly before the lookup's
  next notification, getThumbnailFor emits a Success wrapper (\<open>hasSucceeded\<close>, no
  error) whose payload is the first element of that page.
\<close>

theorem getThumbnailFor_first_of_page:
  assumes "never_throw this"
    and "findByItemAndName this item ''THUMBNAIL'' = earlier @ (t, Next bundleRD) # later"
    and "isNotEmpty (payload bundleRD)"
    and "payload bundleRD = Some bundle"
    and "(d, Next bitstreamRD) \<in> set (findAllByHref this (href (bitstreams (links bundle)))
           (Some \<lparr>elementsPerPage = Some 1, currentPage = None,
                  sortBy = None, filters = None\<rparr>) [])"
    and "payload bitstreamRD = Some list"
    and "page list = Some (first # others)"
    and "in_time later (t + d)"
  shows "(t + d, Next \<lparr>isRequestPending = False, isResponsePending = False,
                        hasSucceeded = True, error = None,
                        payload = Some (AnyBitstream first)\<rparr>)
         \<in> set (getThumbnailFor this item)"
  using getThumbnailFor_listing[OF assms(1,2,4,5) disjI2[OF assms(8)]] assms(6,7)
  by (simp add: RemoteData_new_def at_index_def)

theorem getThumbnailFor_first_of_page_witness:
  "never_throw (repository (succeeded THUMBNAIL_bundle) [cover_jpg, report_pdf_jpg]) \<and>
   findByItemAndName (repository (succeeded THUMBNAIL_bundle) [cover_jpg, report_pdf_jpg])
       ''item-1'' ''THUMBNAIL'' =
     [(0, Next pending)] @ (1, Next (succeeded THUMBNAIL_bundle)) # [] \<and>
   isNotEmpty (payload (succeeded THUMBNAIL_bundle)) \<and>
   (3, Next \<lparr>isRequestPending = False, isResponsePending = False,
               hasSucceeded = True, error = None,
               payload = Some (AnyBitstream cover_jpg)\<rparr>)
     \<in> set (getThumbnailFor (repository (succeeded THUMBNAIL_bundle) [cover_jpg, report_pdf_jpg])
              ''item-1'')"
  using getThumbnailFor_first_of_page[of
      "repository (succeeded THUMBNAIL_bundle) [cover_jpg, report_pdf_jpg]" "''item-1''"
      "[(0, Next pending)]" 1 "succeeded THUMBNAIL_bundle" "[]" THUMBNAIL_bundle
      2 "succeeded (first_page (Some \<lparr>elementsPerPage = Some 1, currentPage = None,
                  sortBy = None, filters = None\<rparr>) [cover_jpg, report_pdf_jpg])"
      "first_page (Some \<lparr>elementsPerPage = Some 1, currentPage = None,
                  sortBy = None, filters = None\<rparr>) [cover_jpg, report_pdf_jpg]"
      cover_jpg "[]"]
  by (simp add: never_throw_def repository_def succeeded_def RemoteData_new_def
      first_page_def page_size_def isNotEmpty_def in_time_def at_tie_def numeral_3_eq_3)

text \<open>
  C4: when the THUMBNAIL bundle lookup delivers a wrapper with a non-empty payload and
  the listing of that bundle's bitstreams delivers, strictly before the lookup's next
  notification, a page with a bitstream whose name starts with the name of the original bitstream,
  getMatchingThumbnail emits a Success wrapper whose payload is the first such
  bitstream of the page, in the order in which the server returned the page.
\<close>

theorem getMatchingThumbnail_first_match:
  assumes "never_throw this"
    and "findByItemAndName this item ''THUMBNAIL'' = earlier @ (t, Next bundleRD) # later"
    and "isNotEmpty (payload bundleRD)"
    and "payload bundleRD = Some bundle"
    and "(d, Next bitstreamRD) \<in> set (findAllByHref this (href (bitstreams (links bundle)))
           (Some \<lparr>elementsPerPage = Some MAX_SAFE_INTEGER, currentPage = None,
                  sortBy = None, filters = None\<rparr>) [])"
    and "payload bitstreamRD = Some list"
    and "page list = Some (before @ match # after)"
    and "\<forall>thumbnail \<in> set before.
           \<not> startsWith (name thumbnail) (name bitstreamInOriginal)"
    and "startsWith (name match) (name bitstreamInOriginal)"
    and "in_time later (t + d)"
  shows "(t + d, Next \<lparr>isRequestPending = False, isResponsePending = False,
                        hasSucceeded = True, error = None,
                        payload = Some (AnyBitstream match)\<rparr>)
         \<in> set (getMatchingThumbnail this item bitstreamInOriginal)"
  using getMatchingThumbnail_listing[OF assms(1,2,4,5) disjI2[OF assms(10)], of bitstreamInOriginal]
    assms(6,7)
    find_first[of before "\<lambda>thumbnail. startsWith (name thumbnail) (name bitstreamInOriginal)"
      match after, OF assms(8,9)]
  by (simp add: RemoteData_new_def)

theorem getMatchingThumbnail_first_match_witness:
  "never_throw (repository (succeeded THUMBNAIL_bundle)
      [cover_jpg, report_pdf_jpg, report_pdf_png]) \<and>
   findByItemAndName (repository (succeeded THUMBNAIL_bundle)
      [cover_jpg, report_pdf_jpg, report_pdf_png]) ''item-1'' ''THUMBNAIL'' =
     [(0, Next pending)] @ (1, Next (succeeded THUMBNAIL_bundle)) # [] \<and>
   isNotEmpty (payload (succeeded THUMBNAIL_bundle)) \<and>
   \<not> startsWith (name cover_jpg) (name report_pdf) \<and>
   startsWith (name report_pdf_jpg) (name report_pdf) \<and>
   startsWith (name report_pdf_png) (name report_pdf) \<and>
   (3, Next \<lparr>isRequestPending = False, isResponsePending = False,
               hasSucceeded = True, error = None,
               payload = Some (AnyBitstream report_pdf_jpg)\<rparr>)
     \<in> set (getMatchingThumbnail (repository (succeeded THUMBNAIL_bundle)
                [cover_jpg, report_pdf_jpg, report_pdf_png]) ''item-1'' report_pdf)"
  using getMatchingThumbnail_first_match[of
      "repository (succeeded THUMBNAIL_bundle) [cover_jpg, report_pdf_jpg, report_pdf_png]"
      "''item-1''"
      "[(0, Next pending)]" 1 "succeeded THUMBNAIL_bundle" "[]" THUMBNAIL_bundle
      2 "succeeded (first_page (Some \<lparr>elementsPerPage = Some MAX_SAFE_INTEGER,
                  currentPage = None, sortBy = None, filters = None\<rparr>)
                  [cover_jpg, report_pdf_jpg, report_pdf_png])"
      "first_page (Some \<lparr>elementsPerPage = Some MAX_SAFE_INTEGER, currentPage = None,
                  sortBy = None, filters = None\<rparr>) [cover_jpg, report_pdf_jpg, report_pdf_png]"
      "[cover_jpg]" report_pdf_jpg "[report_pdf_png]" report_pdf]
  by (simp add: never_throw_def repository_def succeeded_def RemoteData_new_def
      first_page_def page_size_def isNotEmpty_def in_time_def at_tie_def numeral_3_eq_3
      MAX_SAFE_INTEGER_def startsWith_def cover_jpg_def report_pdf_def report_pdf_jpg_def
      report_pdf_png_def)

text \<open>
  C5: when the THUMBNAIL bundle lookup delivers a wrapper whose payload is empty (the
  item has no THUMBNAIL bundle, say), getThumbnailFor emits that wrapper itself, at
  the same tick and with every field as the lookup set it (the cast \<^verbatim>\<open>as any\<close>
  changes none); no error notification is raised.
\<close>

theorem getThumbnailFor_mirrors_bundle_lookup:
  assumes "never_throw this"
    and "in_time_order (findByItemAndName this item ''THUMBNAIL'')"
    and "(t, Next bundleRD) \<in> set (findByItemAndName this item ''THUMBNAIL'')"
    and "\<not> isNotEmpty (payload bundleRD)"
  shows "(t, Next (as_any AnyBundle bundleRD)) \<in> set (getThumbnailFor this item) \<and>
         isRequestPending (as_any AnyBundle bundleRD) = isRequestPending bundleRD \<and>
         isResponsePending (as_any AnyBundle bundleRD) = isResponsePending bundleRD \<and>
         hasSucceeded (as_any AnyBundle bundleRD) = hasSucceeded bundleRD \<and>
         error (as_any AnyBundle bundleRD) = error bundleRD \<and>
         payload (as_any AnyBundle bundleRD) = None \<and> payload bundleRD = None \<and>
         no_errors (getThumbnailFor this item)"
proof -
  have empty: "payload bundleRD = None"
    using assms(4) by (cases "payload bundleRD") (simp_all add: isNotEmpty_def)
  have "(t, Next (as_any AnyBundle bundleRD)) \<in> set (getThumbnailFor this item)"
    by (rule getThumbnailFor_passes_on[OF assms(1,3) empty])
  then show ?thesis
    using empty getThumbnailFor_no_errors[OF assms(1)] by (simp add: as_any_def)
qed

theorem getThumbnailFor_mirrors_bundle_lookup_witness:
  "never_throw (repository (failed 404 ''404'' ''No matching bundle found'') []) \<and>
   in_time_order (findByItemAndName
     (repository (failed 404 ''404'' ''No matching bundle found'') [])
     ''item-1'' ''THUMBNAIL'') \<and>
   (1, Next (failed 404 ''404'' ''No matching bundle found''))
     \<in> set (findByItemAndName (repository (failed 404 ''404'' ''No matching bundle found'') [])
              ''item-1'' ''THUMBNAIL'') \<and>
   \<not> isNotEmpty (payload (failed 404 ''404'' ''No matching bundle found'' :: Bundle RemoteData)) \<and>
   (1, Next \<lparr>isRequestPending = False, isResponsePending = False, hasSucceeded = False,
               error = Some \<lparr>statusCode = 404, statusText = ''404'',
                             message = ''No matching bundle found''\<rparr>,
               payload = None\<rparr>)
     \<in> set (getThumbnailFor (repository (failed 404 ''404'' ''No matching bundle found'') [])
              ''item-1'') \<and>
   no_errors (getThumbnailFor (repository (failed 404 ''404'' ''No matching bundle found'') [])
              ''item-1'')"
  using getThumbnailFor_mirrors_bundle_lookup[of
      "repository (failed 404 ''404'' ''No matching bundle found'') []" "''item-1''"
      1 "failed 404 ''404'' ''No matching bundle found''"]
  by (simp add: never_throw_def repository_def failed_def RemoteData_new_def
      RemoteDataError_new_def isNotEmpty_def in_time_order_def as_any_def)

text \<open>
  C6: findAllByItemAndBundleName is the composition that the specification describes:
  it resolves the named bundle with findByItemAndName of the bundle service and
  then, when the payload of the bundle wrapper is present, calls findAllByHref on the
  href of the bundle's bitstreams relation with the given options and links to
  follow (which is what findAllByBundle does); when the payload is absent it emits
  the bundle wrapper itself.
\<close>

theorem findAllByItemAndBundleName_composition:
  "findAllByItemAndBundleName this item bundleName options linksToFollow =
     findAllByItemAndBundleName_spec this item bundleName options linksToFollow \<and>
   findAllByBundle this bundle options linksToFollow =
     findAllByHref this (href (bitstreams (links bundle))) options linksToFollow"
  unfolding findAllByItemAndBundleName_total findAllByItemAndBundleName_spec_def
    findAllByBundle_def
  by (simp add: option.case_eq_if)

theorem findAllByItemAndBundleName_composition_witness:
  "findAllByItemAndBundleName (repository (succeeded THUMBNAIL_bundle) [cover_jpg])
       ''item-1'' ''THUMBNAIL'' None [] =
     findAllByItemAndBundleName_spec (repository (succeeded THUMBNAIL_bundle) [cover_jpg])
       ''item-1'' ''THUMBNAIL'' None [] \<and>
   findAllByItemAndBundleName (repository (succeeded THUMBNAIL_bundle) [cover_jpg])
       ''item-1'' ''THUMBNAIL'' None [] =
     [(0, Next \<lparr>isRequestPending = True, isResponsePending = False, hasSucceeded = False,
                 error = None, payload = None\<rparr>),
      (1, Next \<lparr>isRequestPending = True, isResponsePending = False, hasSucceeded = False,
                 error = None, payload = None\<rparr>),
      (3, Next \<lparr>isRequestPending = False, isResponsePending = False, hasSucceeded = True,
                 error = None,
                 payload = Some (AnyPaginatedList
                   \<lparr>page = Some [cover_jpg],
                    pageInfo = \<lparr>pageElementsPerPage = 20, totalElements = 1,
                                pageCurrentPage = 0\<rparr>\<rparr>)\<rparr>)]"
  using findAllByItemAndBundleName_composition[of
      "repository (succeeded THUMBNAIL_bundle) [cover_jpg]" "''item-1''" "''THUMBNAIL''"
      None "[]" THUMBNAIL_bundle]
  by (simp add: findAllByItemAndBundleName_spec_def repository_def succeeded_def pending_def
      RemoteData_new_def first_page_def page_size_def switchMap_def delivered_def
      in_time_def at_tie_def from_array_def as_any_def widened_def THUMBNAIL_bundle_def)

text \<open>
  C7: a wrapper that getThumbnailFor or getMatchingThumbnail emits is either a wrapper
  of a collaborator that is passed on (the wrapper of the bundle lookup or of the
  listing, cast with \<^verbatim>\<open>as any\<close>), or a wrapper that the service constructs with
  \<^verbatim>\<open>new RemoteData\<close>: the Success wrapper without error or the Failed wrapper with
  the 404 error. Every constructed wrapper satisfies the invariant: if it has
  succeeded its error is absent, if it has not its error is present.
\<close>

theorem constructed_wrappers_keep_invariant:
  assumes "(u, Next w) \<in> set (getThumbnailFor this item) \<or>
           (u, Next w) \<in> set (getMatchingThumbnail this item bitstreamInOriginal)"
  shows "(\<exists>t bundleRD. (t, Next bundleRD) \<in> set (findByItemAndName this item ''THUMBNAIL'') \<and>
            w = as_any AnyBundle bundleRD) \<or>
         (\<exists>url options d bitstreamRD.
            (d, Next bitstreamRD) \<in> set (findAllByHref this url options []) \<and>
            w = as_any AnyPaginatedList bitstreamRD) \<or>
         ((\<exists>found. w = RemoteData_new False False True None found) \<or>
          w = RemoteData_new False False False
                (Some (RemoteDataError_new 404 ''404'' ''No matching thumbnail found'')) None) \<and>
         wrapper_invariant w"
  using assms
proof
  assume "(u, Next w) \<in> set (getThumbnailFor this item)"
  from listing_switch_sound[OF this[unfolded getThumbnailFor_total]]
  obtain t bundleRD where
    outer: "(t, Next bundleRD) \<in> set (findByItemAndName this item ''THUMBNAIL'')"
    and rest: "case payload bundleRD of
        None \<Rightarrow> u = t \<and> w = as_any AnyBundle bundleRD
      | Some bundle \<Rightarrow>
          \<exists>d bitstreamRD.
            (d, Next bitstreamRD) \<in> set (findAllByHref this (href (bitstreams (links bundle)))
               (Some \<lparr>elementsPerPage = Some 1, currentPage = None,
                      sortBy = None, filters = None\<rparr>) []) \<and>
            u = t + d \<and>
            w = (case payload bitstreamRD of
                   None \<Rightarrow> as_any AnyPaginatedList bitstreamRD
                 | Some list \<Rightarrow>
                     (case page list of
                        None \<Rightarrow> as_any AnyPaginatedList bitstreamRD
                      | Some elements \<Rightarrow>
                          RemoteData_new False False True None
                            (map_option AnyBitstream (at_index elements 0))))"
    by blast
  show ?thesis
  proof (cases "payload bundleRD")
    case None
    with outer rest show ?thesis by auto
  next
    case (Some b)
    with rest obtain d bitstreamRD where
      inner: "(d, Next bitstreamRD) \<in> set (findAllByHref this (href (bitstreams (links b)))
               (Some \<lparr>elementsPerPage = Some 1, currentPage = None,
                      sortBy = None, filters = None\<rparr>) [])"
      and w: "w = (case payload bitstreamRD of
                   None \<Rightarrow> as_any AnyPaginatedList bitstreamRD
                 | Some list \<Rightarrow>
                     (case page list of
                        None \<Rightarrow> as_any AnyPaginatedList bitstreamRD
                      | Some elements \<Rightarrow>
                          RemoteData_new False False True None
                            (map_option AnyBitstream (at_index elements 0))))"
      by auto
    have "w = as_any AnyPaginatedList bitstreamRD \<or>
          (\<exists>found. w = RemoteData_new False False True None found)"
      using w by (auto split: option.splits)
    then show ?thesis
    proof
      assume "w = as_any AnyPaginatedList bitstreamRD"
      with inner show ?thesis by blast
    next
      assume "\<exists>found. w = RemoteData_new False False True None found"
      then show ?thesis by (auto simp: wrapper_invariant_def RemoteData_new_def)
    qed
  qed
next
  assume "(u, Next w) \<in> set (getMatchingThumbnail this item bitstreamInOriginal)"
  from listing_switch_sound[OF this[unfolded getMatchingThumbnail_total]]
  obtain t bundleRD where
    outer: "(t, Next bundleRD) \<in> set (findByItemAndName this item ''THUMBNAIL'')"
    and rest: "case payload bundleRD of
        None \<Rightarrow> u = t \<and> w = as_any AnyBundle bundleRD
      | Some bundle \<Rightarrow>
          \<exists>d bitstreamRD.
            (d, Next bitstreamRD) \<in> set (findAllByHref this (href (bitstreams (links bundle)))
               (Some \<lparr>elementsPerPage = Some MAX_SAFE_INTEGER, currentPage = None,
                      sortBy = None, filters = None\<rparr>) []) \<and>
            u = t + d \<and>
            w = (case payload bitstreamRD of
                   None \<Rightarrow> as_any AnyPaginatedList bitstreamRD
                 | Some list \<Rightarrow>
                     (case page list of
                        None \<Rightarrow> as_any AnyPaginatedList bitstreamRD
                      | Some elements \<Rightarrow>
                          (case find (\<lambda>thumbnail.
                                   startsWith (name thumbnail) (name bitstreamInOriginal))
                                  elements of
                             Some matchingThumbnail \<Rightarrow>
                               RemoteData_new False False True None
                                 (Some (AnyBitstream matchingThumbnail))
                           | None \<Rightarrow>
                               RemoteData_new False False False
                                 (Some (RemoteDataError_new 404 ''404''
                                          ''No matching thumbnail found''))
                                 None)))"
    by blast
  show ?thesis
  proof (cases "payload bundleRD")
    case None
    with outer rest show ?thesis by auto
  next
    case (Some b)
    with rest obtain d bitstreamRD where
      inner: "(d, Next bitstreamRD) \<in> set (findAllByHref this (href (bitstreams (links b)))
               (Some \<lparr>elementsPerPage = Some MAX_SAFE_INTEGER, currentPage = None,
                      sortBy = None, filters = None\<rparr>) [])"
      and w: "w = (case payload bitstreamRD of
                   None \<Rightarrow> as_any AnyPaginatedList bitstreamRD
                 | Some list \<Rightarrow>
                     (case page list of
                        None \<Rightarrow> as_any AnyPaginatedList bitstreamRD
                      | Some elements \<Rightarrow>
                          (case find (\<lambda>thumbnail.
                                   startsWith (name thumbnail) (name bitstreamInOriginal))
                                  elements of
                             Some matchingThumbnail \<Rightarrow>
                               RemoteData_new False False True None
                                 (Some (AnyBitstream matchingThumbnail))
                           | None \<Rightarrow>
                               RemoteData_new False False False
                                 (Some (RemoteDataError_new 404 ''404''
                                          ''No matching thumbnail found''))
                                 None)))"
      by auto
    have "w = as_any AnyPaginatedList bitstreamRD \<or>
          (\<exists>found. w = RemoteData_new False False True None found) \<or>
          w = RemoteData_new False False False
                (Some (RemoteDataError_new 404 ''404'' ''No matching thumbnail found'')) None"
      using w by (auto split: option.splits)
    then show ?thesis
    proof (elim disjE)
      assume "w = as_any AnyPaginatedList bitstreamRD"
      with inner show ?thesis by blast
    next
      assume "\<exists>found. w = RemoteData_new False False True None found"
      then show ?thesis by (auto simp: wrapper_invariant_def RemoteData_new_def)
    next
      assume "w = RemoteData_new False False False
                (Some (RemoteDataError_new 404 ''404'' ''No matching thumbnail found'')) None"
      then show ?thesis by (simp add: wrapper_invariant_def RemoteData_new_def)
    qed
  qed
qed

theorem constructed_wrappers_keep_invariant_witness:
  "(3, Next \<lparr>isRequestPending = False, isResponsePending = False, hasSucceeded = True,
               error = None, payload = Some (AnyBitstream cover_jpg)\<rparr>)
     \<in> set (getThumbnailFor (repository (succeeded THUMBNAIL_bundle) [cover_jpg]) ''item-1'') \<and>
   wrapper_invariant
     \<lparr>isRequestPending = False, isResponsePending = False, hasSucceeded = True,
      error = None, payload = Some (AnyBitstream cover_jpg)\<rparr> \<and>
   (3, Next \<lparr>isRequestPending = False, isResponsePending = False, hasSucceeded = False,
               error = Some \<lparr>statusCode = 404, statusText = ''404'',
                             message = ''No matching thumbnail found''\<rparr>,
               payload = None\<rparr>)
     \<in> set (getMatchingThumbnail (repository (succeeded THUMBNAIL_bundle) [cover_jpg])
              ''item-1'' report_pdf) \<and>
   wrapper_invariant
     \<lparr>isRequestPending = False, isResponsePending = False, hasSucceeded = False,
      error = Some \<lparr>statusCode = 404, statusText = ''404'',
                    message = ''No matching thumbnail found''\<rparr>,
      payload = None :: any option\<rparr>"
  using constructed_wrappers_keep_invariant[of 3
      "\<lparr>isRequestPending = False, isResponsePending = False, hasSucceeded = True,
        error = None, payload = Some (AnyBitstream cover_jpg)\<rparr>"
      "repository (succeeded THUMBNAIL_bundle) [cover_jpg]" "''item-1''" report_pdf]
    constructed_wrappers_keep_invariant[of 3
      "\<lparr>isRequestPending = False, isResponsePending = False, hasSucceeded = False,
        error = Some \<lparr>statusCode = 404, statusText = ''404'',
                      message = ''No matching thumbnail found''\<rparr>,
        payload = None\<rparr>"
      "repository (succeeded THUMBNAIL_bundle) [cover_jpg]" "''item-1''" report_pdf]
  by (simp add: wrapper_invariant_def getThumbnailFor_def getMatchingThumbnail_def
      findAllByBundle_def repository_def succeeded_def pending_def first_page_def
      page_size_def RemoteData_new_def RemoteDataError_new_def switchMap_def map_op_def
      delivered_def in_time_def at_tie_def from_array_def member_def hasValue_def
      isNotEmpty_def as_any_def at_index_def startsWith_def MAX_SAFE_INTEGER_def
      THUMBNAIL_bundle_def cover_jpg_def report_pdf_def)

text \<open>
  C8, as it stands, fails in its second half: a listing wrapper that has failed with a
  server error and still carries a page is in the Failed state and keeps the invariant
  of a wrapper, yet getThumbnailFor makes of it a wrapper that has succeeded, without
  error, with the first bitstream of the page. The failure is not delivered.
\<close>

theorem failure_with_page_counterexample:
  "Failed (stale_page (Some \<lparr>elementsPerPage = Some 1, currentPage = None,
                             sortBy = None, filters = None\<rparr>) [cover_jpg]) \<and>
   wrapper_invariant (stale_page (Some \<lparr>elementsPerPage = Some 1, currentPage = None,
                             sortBy = None, filters = None\<rparr>) [cover_jpg]) \<and>
   never_throw (failing_repository [cover_jpg]) \<and>
   findAllByHref (failing_repository [cover_jpg])
       (href (bitstreams (links THUMBNAIL_bundle)))
       (Some \<lparr>elementsPerPage = Some 1, currentPage = None,
              sortBy = None, filters = None\<rparr>) [] =
     [(2, Next (stale_page (Some \<lparr>elementsPerPage = Some 1, currentPage = None,
                                   sortBy = None, filters = None\<rparr>) [cover_jpg]))] \<and>
   getThumbnailFor (failing_repository [cover_jpg]) ''item-1'' =
     [(3, Next \<lparr>isRequestPending = False, isResponsePending = False, hasSucceeded = True,
                 error = None, payload = Some (AnyBitstream cover_jpg)\<rparr>)]"
  by (simp add: Failed_def wrapper_invariant_def never_throw_def stale_page_def
      failing_repository_def getThumbnailFor_def
      findAllByBundle_def succeeded_def first_page_def page_size_def RemoteData_new_def
      RemoteDataError_new_def switchMap_def map_op_def delivered_def in_time_def at_tie_def
      member_def hasValue_def isNotEmpty_def at_index_def THUMBNAIL_bundle_def)

text \<open>
  C8, amended: for every item, bundle, bitstream, bundle name and options, the
  observables of getThumbnailFor, getMatchingThumbnail, findAllByBundle and
  findAllByItemAndBundleName carry no error notification when the collaborators keep
  their contract of never throwing: processing a wrapper of a collaborator raises no
  exception (no property of an absent payload or page is read), so all that a
  subscriber receives is wrappers. A failure that a collaborator reports in a wrapper
  without payload reaches the subscriber as that wrapper, in the Failed state and with
  its error: a Failed wrapper of the bundle lookup always, a Failed wrapper of the
  listing when it is due strictly before the lookup's next notification.
  findAllByItemAndBundleName passes a Failed wrapper of the listing on whether it has
  a payload or not.
\<close>

theorem service_never_throws:
  assumes "never_throw this"
  shows "no_errors (getThumbnailFor this item) \<and>
         no_errors (getMatchingThumbnail this item bitstreamInOriginal) \<and>
         no_errors (findAllByBundle this bundle options linksToFollow) \<and>
         no_errors (findAllByItemAndBundleName this item bundleName options linksToFollow) \<and>
         (\<forall>t bundleRD.
            (t, Next bundleRD) \<in> set (findByItemAndName this item ''THUMBNAIL'') \<and>
            Failed bundleRD \<and> payload bundleRD = None \<longrightarrow>
            Failed (as_any AnyBundle bundleRD) \<and>
            error (as_any AnyBundle bundleRD) = error bundleRD \<and>
            (t, Next (as_any AnyBundle bundleRD)) \<in> set (getThumbnailFor this item) \<and>
            (t, Next (as_any AnyBundle bundleRD))
              \<in> set (getMatchingThumbnail this item bitstreamInOriginal)) \<and>
         (\<forall>t bundleRD.
            (t, Next bundleRD) \<in> set (findByItemAndName this item bundleName) \<and>
            Failed bundleRD \<and> payload bundleRD = None \<longrightarrow>
            Failed (as_any AnyBundle bundleRD) \<and>
            error (as_any AnyBundle bundleRD) = error bundleRD \<and>
            (t, Next (as_any AnyBundle bundleRD))
              \<in> set (findAllByItemAndBundleName this item bundleName options linksToFollow)) \<and>
         (\<forall>earlier t bundleRD later found d bitstreamRD.
            findByItemAndName this item ''THUMBNAIL'' = earlier @ (t, Next bundleRD) # later \<and>
            payload bundleRD = Some found \<and> in_time later (t + d) \<and>
            Failed bitstreamRD \<and> payload bitstreamRD = None \<longrightarrow>
            Failed (as_any AnyPaginatedList bitstreamRD) \<and>
            error (as_any AnyPaginatedList bitstreamRD) = error bitstreamRD \<and>
            ((d, Next bitstreamRD) \<in> set (findAllByHref this (href (bitstreams (links found)))
                (Some \<lparr>elementsPerPage = Some 1, currentPage = None,
                       sortBy = None, filters = None\<rparr>) []) \<longrightarrow>
             (t + d, Next (as_any AnyPaginatedList bitstreamRD))
               \<in> set (getThumbnailFor this item)) \<and>
            ((d, Next bitstreamRD) \<in> set (findAllByHref this (href (bitstreams (links found)))
                (Some \<lparr>elementsPerPage = Some MAX_SAFE_INTEGER, currentPage = None,
                       sortBy = None, filters = None\<rparr>) []) \<longrightarrow>
             (t + d, Next (as_any AnyPaginatedList bitstreamRD))
               \<in> set (getMatchingThumbnail this item bitstreamInOriginal))) \<and>
         (\<forall>earlier t bundleRD later found d bitstreamRD.
            findByItemAndName this item bundleName = earlier @ (t, Next bundleRD) # later \<and>
            payload bundleRD = Some found \<and> in_time later (t + d) \<and> Failed bitstreamRD \<and>
            (d, Next bitstreamRD) \<in> set (findAllByHref this (href (bitstreams (links found)))
                options linksToFollow) \<longrightarrow>
            Failed (as_any AnyPaginatedList bitstreamRD) \<and>
            error (as_any AnyPaginatedList bitstreamRD) = error bitstreamRD \<and>
            (t + d, Next (as_any AnyPaginatedList bitstreamRD))
              \<in> set (findAllByItemAndBundleName this item bundleName options linksToFollow))"
proof (intro conjI allI impI)
  show "no_errors (getThumbnailFor this item)"
    by (rule getThumbnailFor_no_errors[OF assms])
  show "no_errors (getMatchingThumbnail this item bitstreamInOriginal)"
    by (rule getMatchingThumbnail_no_errors[OF assms])
  show "no_errors (findAllByBundle this bundle options linksToFollow)"
    by (rule never_throwD(3)[OF assms])
  show "no_errors (findAllByItemAndBundleName this item bundleName options linksToFollow)"
    by (rule findAllByItemAndBundleName_no_errors[OF assms])
next
  fix t bundleRD
  assume a: "(t, Next bundleRD) \<in> set (findByItemAndName this item ''THUMBNAIL'') \<and>
            Failed bundleRD \<and> payload bundleRD = None"
  then have empty: "payload bundleRD = None" by simp
  show "Failed (as_any AnyBundle bundleRD)"
    "error (as_any AnyBundle bundleRD) = error bundleRD"
    using a Failed_as_any by blast+
  show "(t, Next (as_any AnyBundle bundleRD)) \<in> set (getThumbnailFor this item)"
    using a by (intro getThumbnailFor_passes_on[OF assms _ empty]) simp
  show "(t, Next (as_any AnyBundle bundleRD))
          \<in> set (getMatchingThumbnail this item bitstreamInOriginal)"
    using a by (intro getMatchingThumbnail_passes_on[OF assms _ empty]) simp
next
  fix t bundleRD
  assume a: "(t, Next bundleRD) \<in> set (findByItemAndName this item bundleName) \<and>
            Failed bundleRD \<and> payload bundleRD = None"
  then have empty: "payload bundleRD = None" by simp
  show "Failed (as_any AnyBundle bundleRD)"
    "error (as_any AnyBundle bundleRD) = error bundleRD"
    using a Failed_as_any by blast+
  show "(t, Next (as_any AnyBundle bundleRD))
          \<in> set (findAllByItemAndBundleName this item bundleName options linksToFollow)"
    using a by (intro findAllByItemAndBundleName_passes_on[OF assms _ empty]) simp
next
  fix earlier t bundleRD later found d
    and bitstreamRD :: "Bitstream PaginatedList RemoteData"
  assume a: "findByItemAndName this item ''THUMBNAIL'' = earlier @ (t, Next bundleRD) # later \<and>
            payload bundleRD = Some found \<and> in_time later (t + d) \<and>
            Failed bitstreamRD \<and> payload bitstreamRD = None"
  then have empty: "payload bitstreamRD = None" by simp
  from a have facts:
    "findByItemAndName this item ''THUMBNAIL'' = earlier @ (t, Next bundleRD) # later"
    "payload bundleRD = Some found" "d = 0 \<or> in_time later (t + d)" by simp_all
  show "Failed (as_any AnyPaginatedList bitstreamRD)"
    "error (as_any AnyPaginatedList bitstreamRD) = error bitstreamRD"
    using a Failed_as_any by blast+
  {
    assume l: "(d, Next bitstreamRD) \<in> set (findAllByHref this (href (bitstreams (links found)))
                (Some \<lparr>elementsPerPage = Some 1, currentPage = None,
                       sortBy = None, filters = None\<rparr>) [])"
    from getThumbnailFor_listing[OF assms facts(1,2) l facts(3)] empty
    show "(t + d, Next (as_any AnyPaginatedList bitstreamRD)) \<in> set (getThumbnailFor this item)"
      by simp
  }
  {
    assume l: "(d, Next bitstreamRD) \<in> set (findAllByHref this (href (bitstreams (links found)))
                (Some \<lparr>elementsPerPage = Some MAX_SAFE_INTEGER, currentPage = None,
                       sortBy = None, filters = None\<rparr>) [])"
    from getMatchingThumbnail_listing[OF assms facts(1,2) l facts(3), of bitstreamInOriginal] empty
    show "(t + d, Next (as_any AnyPaginatedList bitstreamRD))
            \<in> set (getMatchingThumbnail this item bitstreamInOriginal)"
      by simp
  }
next
  fix earlier t bundleRD later found d bitstreamRD
  assume a: "findByItemAndName this item bundleName = earlier @ (t, Next bundleRD) # later \<and>
            payload bundleRD = Some found \<and> in_time later (t + d) \<and> Failed bitstreamRD \<and>
            (d, Next bitstreamRD) \<in> set (findAllByHref this (href (bitstreams (links found)))
                options linksToFollow)"
  show "Failed (as_any AnyPaginatedList bitstreamRD)"
    "error (as_any AnyPaginatedList bitstreamRD) = error bitstreamRD"
    using a Failed_as_any by blast+
  from a have "findByItemAndName this item bundleName = earlier @ (t, Next bundleRD) # later"
    "payload bundleRD = Some found"
    "(d, Next bitstreamRD) \<in> set (findAllByHref this (href (bitstreams (links found)))
                options linksToFollow)"
    "d = 0 \<or> in_time later (t + d)" by simp_all
  then show "(t + d, Next (as_any AnyPaginatedList bitstreamRD))
          \<in> set (findAllByItemAndBundleName this item bundleName options linksToFollow)"
    by (rule findAllByItemAndBundleName_listing[OF assms])
qed

theorem service_never_throws_witness:
  "never_throw (repository (failed 404 ''404'' ''No matching bundle found'')
      [cover_jpg, report_pdf_jpg]) \<and>
   no_errors (getThumbnailFor
     (repository (failed 404 ''404'' ''No matching bundle found'') [cover_jpg, report_pdf_jpg])
     ''item-1'') \<and>
   no_errors (getMatchingThumbnail
     (repository (failed 404 ''404'' ''No matching bundle found'') [cover_jpg, report_pdf_jpg])
     ''item-1'' report_pdf) \<and>
   no_errors (findAllByBundle
     (repository (failed 404 ''404'' ''No matching bundle found'') [cover_jpg, report_pdf_jpg])
     THUMBNAIL_bundle None []) \<and>
   no_errors (findAllByItemAndBundleName
     (repository (failed 404 ''404'' ''No matching bundle found'') [cover_jpg, report_pdf_jpg])
     ''item-1'' ''THUMBNAIL'' None []) \<and>
   Failed (failed 404 ''404'' ''No matching bundle found'' :: Bundle RemoteData) \<and>
   payload (failed 404 ''404'' ''No matching bundle found'' :: Bundle RemoteData) = None \<and>
   (1, Next (as_any AnyBundle (failed 404 ''404'' ''No matching bundle found'')))
     \<in> set (getThumbnailFor
     (repository (failed 404 ''404'' ''No matching bundle found'') [cover_jpg, report_pdf_jpg])
     ''item-1'') \<and>
   (1, Next (as_any AnyBundle (failed 404 ''404'' ''No matching bundle found'')))
     \<in> set (getMatchingThumbnail
     (repository (failed 404 ''404'' ''No matching bundle found'') [cover_jpg, report_pdf_jpg])
     ''item-1'' report_pdf) \<and>
   (1, Next (as_any AnyBundle (failed 404 ''404'' ''No matching bundle found'')))
     \<in> set (findAllByItemAndBundleName
     (repository (failed 404 ''404'' ''No matching bundle found'') [cover_jpg, report_pdf_jpg])
     ''item-1'' ''THUMBNAIL'' None []) \<and>
   never_throw (failing_repository [cover_jpg]) \<and>
   Failed (stale_page None [cover_jpg]) \<and>
   (3, Next (as_any AnyPaginatedList (stale_page None [cover_jpg])))
     \<in> set (findAllByItemAndBundleName (failing_repository [cover_jpg])
     ''item-1'' ''THUMBNAIL'' None [])"
proof -
  note inst = service_never_throws[of
      "repository (failed 404 ''404'' ''No matching bundle found'') [cover_jpg, report_pdf_jpg]"
      "''item-1''" report_pdf THUMBNAIL_bundle None "[]" "''THUMBNAIL''"]
  have contract: "never_throw (repository (failed 404 ''404'' ''No matching bundle found'')
      [cover_jpg, report_pdf_jpg])"
    by (simp add: never_throw_def repository_def)
  have failure:
    "(1, Next (failed 404 ''404'' ''No matching bundle found''))
      \<in> set (findByItemAndName
      (repository (failed 404 ''404'' ''No matching bundle found'') [cover_jpg, report_pdf_jpg])
      ''item-1'' ''THUMBNAIL'') \<and>
    Failed (failed 404 ''404'' ''No matching bundle found'' :: Bundle RemoteData) \<and>
    payload (failed 404 ''404'' ''No matching bundle found'' :: Bundle RemoteData) = None"
    by (simp add: repository_def Failed_def failed_def RemoteData_new_def)
  have stale_contract: "never_throw (failing_repository [cover_jpg])"
    by (simp add: never_throw_def failing_repository_def)
  have stale: "Failed (stale_page None [cover_jpg])"
    by (simp add: Failed_def stale_page_def RemoteData_new_def)
  have stale_listing:
    "findByItemAndName (failing_repository [cover_jpg]) ''item-1'' ''THUMBNAIL'' =
       [] @ (1, Next (succeeded THUMBNAIL_bundle)) # [] \<and>
     payload (succeeded THUMBNAIL_bundle) = Some THUMBNAIL_bundle \<and>
     in_time ([] :: (nat \<times> Bundle RemoteData notification) list) (1 + 2) \<and>
     Failed (stale_page None [cover_jpg]) \<and>
     (2, Next (stale_page None [cover_jpg]))
       \<in> set (findAllByHref (failing_repository [cover_jpg])
         (href (bitstreams (links THUMBNAIL_bundle))) None [])"
    using stale by (simp add: failing_repository_def succeeded_def RemoteData_new_def in_time_def)
  note last = service_never_throws[OF stale_contract, of "''item-1''" report_pdf
      THUMBNAIL_bundle None "[]" "''THUMBNAIL''", THEN conjunct2, THEN conjunct2,
      THEN conjunct2, THEN conjunct2, THEN conjunct2, THEN conjunct2, THEN conjunct2,
      rule_format, OF stale_listing]
  then have "(3, Next (as_any AnyPaginatedList (stale_page None [cover_jpg])))
     \<in> set (findAllByItemAndBundleName (failing_repository [cover_jpg])
     ''item-1'' ''THUMBNAIL'' None [])"
    by (simp add: numeral_3_eq_3)
  with inst[OF contract] failure contract stale_contract stale show ?thesis
    by blast
qed

text \<open>
  C9: when the THUMBNAIL bundle lookup delivers a wrapper with a non-empty payload and
  the listing of that bundle's bitstreams delivers, strictly before the lookup's next
  notification, a wrapper whose page has length zero, getThumbnailFor emits a wrapper with
  \<open>hasSucceeded = True\<close>, no error and no payload: the first element of the empty
  page is absent, and the wrapper is not a Failed one.
\<close>

theorem getThumbnailFor_empty_page:
  assumes "never_throw this"
    and "findByItemAndName this item ''THUMBNAIL'' = earlier @ (t, Next bundleRD) # later"
    and "isNotEmpty (payload bundleRD)"
    and "payload bundleRD = Some bundle"
    and "(d, Next bitstreamRD) \<in> set (findAllByHref this (href (bitstreams (links bundle)))
           (Some \<lparr>elementsPerPage = Some 1, currentPage = None,
                  sortBy = None, filters = None\<rparr>) [])"
    and "hasSucceeded bitstreamRD"
    and "payload bitstreamRD = Some list"
    and "page list = Some thumbnails"
    and "length thumbnails = 0"
    and "in_time later (t + d)"
  shows "(t + d, Next \<lparr>isRequestPending = False, isResponsePending = False,
                        hasSucceeded = True, error = None, payload = None\<rparr>)
         \<in> set (getThumbnailFor this item)"
  using getThumbnailFor_listing[OF assms(1,2,4,5) disjI2[OF assms(10)]] assms(7,8,9)
  by (simp add: RemoteData_new_def at_index_def)

theorem getThumbnailFor_empty_page_witness:
  "never_throw (repository (succeeded THUMBNAIL_bundle) []) \<and>
   findByItemAndName (repository (succeeded THUMBNAIL_bundle) [])
       ''item-1'' ''THUMBNAIL'' =
     [(0, Next pending)] @ (1, Next (succeeded THUMBNAIL_bundle)) # [] \<and>
   isNotEmpty (payload (succeeded THUMBNAIL_bundle)) \<and>
   (3, Next \<lparr>isRequestPending = False, isResponsePending = False,
               hasSucceeded = True, error = None, payload = None\<rparr>)
     \<in> set (getThumbnailFor (repository (succeeded THUMBNAIL_bundle) []) ''item-1'')"
  using getThumbnailFor_empty_page[of
      "repository (succeeded THUMBNAIL_bundle) []" "''item-1''"
      "[(0, Next pending)]" 1 "succeeded THUMBNAIL_bundle" "[]" THUMBNAIL_bundle
      2 "succeeded (first_page (Some \<lparr>elementsPerPage = Some 1, currentPage = None,
                  sortBy = None, filters = None\<rparr>) [])"
      "first_page (Some \<lparr>elementsPerPage = Some 1, currentPage = None,
                  sortBy = None, filters = None\<rparr>) []"
      "[]"]
  by (simp add: never_throw_def repository_def succeeded_def RemoteData_new_def
      first_page_def page_size_def isNotEmpty_def in_time_def at_tie_def numeral_3_eq_3)

text \<open>
  C10: getMatchingThumbnail requests the bitstreams of the THUMBNAIL bundle with
  \<^verbatim>\<open>elementsPerPage = Number.MAX_SAFE_INTEGER\<close> (\<open>2\<^sup>5\<^sup>3 - 1\<close>), and
  getThumbnailFor with \<^verbatim>\<open>elementsPerPage = 1\<close>. Every wrapper that
  getMatchingThumbnail emits is a wrapper of the THUMBNAIL bundle lookup without
  payload, or is made of a wrapper that \<^verbatim>\<open>findAllByHref\<close> delivered for the
  \<^verbatim>\<open>bitstreams\<close> link of the bundle found, asked with these options and no
  links to follow; the same holds of getThumbnailFor with a page of size 1. The
  request is made: a wrapper that it delivers strictly before the lookup's next
  notification gives the emitted wrapper, and when any bitstream of its page, at
  whatever position, has a name that starts with the name of the original, the
  emitted wrapper has succeeded with a matching bitstream of that page: the search
  runs over the whole page. What either operation emits depends on the listing only
  at its own options.
\<close>

theorem requested_page_sizes:
  "MAX_SAFE_INTEGER = 9007199254740991 \<and>
   (\<forall>u w. (u, Next w) \<in> set (getMatchingThumbnail this item bitstreamInOriginal) \<longrightarrow>
      (\<exists>t bundleRD. (t, Next bundleRD) \<in> set (findByItemAndName this item ''THUMBNAIL'') \<and>
         (case payload bundleRD of
            None \<Rightarrow> u = t \<and> w = as_any AnyBundle bundleRD
          | Some bundle \<Rightarrow>
              \<exists>d bitstreamRD.
                (d, Next bitstreamRD) \<in> set (findAllByHref this (href (bitstreams (links bundle)))
                   (Some \<lparr>elementsPerPage = Some MAX_SAFE_INTEGER, currentPage = None,
                          sortBy = None, filters = None\<rparr>) []) \<and>
                u = t + d \<and>
                w = (case payload bitstreamRD of
                       None \<Rightarrow> as_any AnyPaginatedList bitstreamRD
                     | Some list \<Rightarrow>
                         (case page list of
                            None \<Rightarrow> as_any AnyPaginatedList bitstreamRD
                          | Some elements \<Rightarrow>
                              (case find (\<lambda>thumbnail.
                                       startsWith (name thumbnail) (name bitstreamInOriginal))
                                      elements of
                                 Some matchingThumbnail \<Rightarrow>
                                   RemoteData_new False False True None
                                     (Some (AnyBitstream matchingThumbnail))
                               | None \<Rightarrow>
                                   RemoteData_new False False False
                                     (Some (RemoteDataError_new 404 ''404''
                                              ''No matching thumbnail found''))
                                     None)))))) \<and>
   (\<forall>u w. (u, Next w) \<in> set (getThumbnailFor this item) \<longrightarrow>
      (\<exists>t bundleRD. (t, Next bundleRD) \<in> set (findByItemAndName this item ''THUMBNAIL'') \<and>
         (case payload bundleRD of
            None \<Rightarrow> u = t \<and> w = as_any AnyBundle bundleRD
          | Some bundle \<Rightarrow>
              \<exists>d bitstreamRD.
                (d, Next bitstreamRD) \<in> set (findAllByHref this (href (bitstreams (links bundle)))
                   (Some \<lparr>elementsPerPage = Some 1, currentPage = None,
                          sortBy = None, filters = None\<rparr>) []) \<and>
                u = t + d \<and>
                w = (case payload bitstreamRD of
                       None \<Rightarrow> as_any AnyPaginatedList bitstreamRD
                     | Some list \<Rightarrow>
                         (case page list of
                            None \<Rightarrow> as_any AnyPaginatedList bitstreamRD
                          | Some elements \<Rightarrow>
                              RemoteData_new False False True None
                                (map_option AnyBitstream (at_index elements 0))))))) \<and>
   (\<forall>earlier t bundleRD later found d bitstreamRD.
      never_throw this \<and>
      findByItemAndName this item ''THUMBNAIL'' = earlier @ (t, Next bundleRD) # later \<and>
      payload bundleRD = Some found \<and> in_time later (t + d) \<and>
      (d, Next bitstreamRD) \<in> set (findAllByHref this (href (bitstreams (links found)))
         (Some \<lparr>elementsPerPage = Some MAX_SAFE_INTEGER, currentPage = None,
                sortBy = None, filters = None\<rparr>) []) \<longrightarrow>
      (\<forall>list thumbnails thumbnail.
         payload bitstreamRD = Some list \<and> page list = Some thumbnails \<and>
         thumbnail \<in> set thumbnails \<and>
         startsWith (name thumbnail) (name bitstreamInOriginal) \<longrightarrow>
         (\<exists>matchingThumbnail.
            matchingThumbnail \<in> set thumbnails \<and>
            startsWith (name matchingThumbnail) (name bitstreamInOriginal) \<and>
            (t + d, Next (RemoteData_new False False True None
                            (Some (AnyBitstream matchingThumbnail))))
              \<in> set (getMatchingThumbnail this item bitstreamInOriginal)))) \<and>
   (\<forall>earlier t bundleRD later found d bitstreamRD list thumbnails.
      never_throw this \<and>
      findByItemAndName this item ''THUMBNAIL'' = earlier @ (t, Next bundleRD) # later \<and>
      payload bundleRD = Some found \<and> in_time later (t + d) \<and>
      (d, Next bitstreamRD) \<in> set (findAllByHref this (href (bitstreams (links found)))
         (Some \<lparr>elementsPerPage = Some 1, currentPage = None,
                sortBy = None, filters = None\<rparr>) []) \<and>
      payload bitstreamRD = Some list \<and> page list = Some thumbnails \<longrightarrow>
      (t + d, Next (RemoteData_new False False True None
                      (map_option AnyBitstream (at_index thumbnails 0))))
        \<in> set (getThumbnailFor this item)) \<and>
   (findByItemAndName other item ''THUMBNAIL'' = findByItemAndName this item ''THUMBNAIL'' \<and>
    inner_first other = inner_first this \<and>
    (\<forall>url. findAllByHref other url
             (Some \<lparr>elementsPerPage = Some MAX_SAFE_INTEGER, currentPage = None,
                    sortBy = None, filters = None\<rparr>) [] =
           findAllByHref this url
             (Some \<lparr>elementsPerPage = Some MAX_SAFE_INTEGER, currentPage = None,
                    sortBy = None, filters = None\<rparr>) []) \<longrightarrow>
    getMatchingThumbnail other item bitstreamInOriginal =
    getMatchingThumbnail this item bitstreamInOriginal) \<and>
   (findByItemAndName other item ''THUMBNAIL'' = findByItemAndName this item ''THUMBNAIL'' \<and>
    inner_first other = inner_first this \<and>
    (\<forall>url. findAllByHref other url
             (Some \<lparr>elementsPerPage = Some 1, currentPage = None,
                    sortBy = None, filters = None\<rparr>) [] =
           findAllByHref this url
             (Some \<lparr>elementsPerPage = Some 1, currentPage = None,
                    sortBy = None, filters = None\<rparr>) []) \<longrightarrow>
    getThumbnailFor other item = getThumbnailFor this item)"
  apply (intro conjI)
  subgoal
    by (simp add: MAX_SAFE_INTEGER_def)
  subgoal
    unfolding getMatchingThumbnail_total
    by (intro allI impI) (rule listing_switch_sound)
  subgoal
    unfolding getThumbnailFor_total
    by (intro allI impI) (rule listing_switch_sound)
  subgoal
    apply (simp only: imp_conjL)
    apply (intro allI impI)
    subgoal premises p for earlier t bundleRD later found d bitstreamRD list thumbnails thumbnail
    proof -
      from find_some_match[OF p(8), of "\<lambda>thumbnail.
          startsWith (name thumbnail) (name bitstreamInOriginal)", OF p(9)]
      obtain m where m: "find (\<lambda>thumbnail.
          startsWith (name thumbnail) (name bitstreamInOriginal)) thumbnails = Some m"
        "m \<in> set thumbnails" "startsWith (name m) (name bitstreamInOriginal)"
        by blast
      from getMatchingThumbnail_listing[OF p(1,2,3,5) disjI2[OF p(4)], of bitstreamInOriginal]
        p(6,7) m(1)
      have "(t + d, Next (RemoteData_new False False True None (Some (AnyBitstream m))))
              \<in> set (getMatchingThumbnail this item bitstreamInOriginal)"
        by simp
      with m(2,3) show ?thesis by blast
    qed
    done
  subgoal
    apply (simp only: imp_conjL)
    apply (intro allI impI)
    subgoal premises p for earlier t bundleRD later found d bitstreamRD list thumbnails
      using getThumbnailFor_listing[OF p(1,2,3,5) disjI2[OF p(4)]] p(6,7)
      by simp
    done
  subgoal
    apply (simp only: imp_conjL)
    apply (intro impI)
    subgoal premises p
      unfolding getMatchingThumbnail_total p(1,2) p(3)[rule_format] ..
    done
  subgoal
    apply (simp only: imp_conjL)
    apply (intro impI)
    subgoal premises p
      unfolding getThumbnailFor_total p(1,2) p(3)[rule_format] ..
    done
  done

theorem requested_page_sizes_witness:
  "MAX_SAFE_INTEGER = 9007199254740991 \<and>
   never_throw (repository (succeeded THUMBNAIL_bundle) [cover_jpg, report_pdf_jpg]) \<and>
   findByItemAndName (repository (succeeded THUMBNAIL_bundle) [cover_jpg, report_pdf_jpg])
     ''item-1'' ''THUMBNAIL'' =
     [(0, Next pending)] @ (1, Next (succeeded THUMBNAIL_bundle)) # [] \<and>
   in_time ([] :: (nat \<times> Bundle RemoteData notification) list) (1 + 2) \<and>
   (2, Next (succeeded (first_page
        (Some \<lparr>elementsPerPage = Some MAX_SAFE_INTEGER, currentPage = None,
               sortBy = None, filters = None\<rparr>) [cover_jpg, report_pdf_jpg])))
     \<in> set (findAllByHref (repository (succeeded THUMBNAIL_bundle) [cover_jpg, report_pdf_jpg])
         (href (bitstreams (links THUMBNAIL_bundle)))
         (Some \<lparr>elementsPerPage = Some MAX_SAFE_INTEGER, currentPage = None,
                sortBy = None, filters = None\<rparr>) []) \<and>
   page (first_page
        (Some \<lparr>elementsPerPage = Some MAX_SAFE_INTEGER, currentPage = None,
               sortBy = None, filters = None\<rparr>) [cover_jpg, report_pdf_jpg]) =
     Some [cover_jpg, report_pdf_jpg] \<and>
   \<not> startsWith (name cover_jpg) (name report_pdf) \<and>
   startsWith (name report_pdf_jpg) (name report_pdf) \<and>
   (3, Next (RemoteData_new False False True None (Some (AnyBitstream report_pdf_jpg))))
     \<in> set (getMatchingThumbnail
         (repository (succeeded THUMBNAIL_bundle) [cover_jpg, report_pdf_jpg])
         ''item-1'' report_pdf) \<and>
   page (first_page
        (Some \<lparr>elementsPerPage = Some 1, currentPage = None,
               sortBy = None, filters = None\<rparr>) [cover_jpg, report_pdf_jpg]) =
     Some [cover_jpg] \<and>
   (3, Next (RemoteData_new False False True None (Some (AnyBitstream cover_jpg))))
     \<in> set (getThumbnailFor
         (repository (succeeded THUMBNAIL_bundle) [cover_jpg, report_pdf_jpg]) ''item-1'') \<and>
   getMatchingThumbnail
     (answering_only \<lparr>elementsPerPage = Some MAX_SAFE_INTEGER, currentPage = None,
                       sortBy = None, filters = None\<rparr>
        (repository (succeeded THUMBNAIL_bundle) [cover_jpg, report_pdf_jpg]))
     ''item-1'' report_pdf =
   getMatchingThumbnail (repository (succeeded THUMBNAIL_bundle) [cover_jpg, report_pdf_jpg])
     ''item-1'' report_pdf \<and>
   getThumbnailFor
     (answering_only \<lparr>elementsPerPage = Some MAX_SAFE_INTEGER, currentPage = None,
                       sortBy = None, filters = None\<rparr>
        (repository (succeeded THUMBNAIL_bundle) [cover_jpg, report_pdf_jpg]))
     ''item-1'' \<noteq>
   getThumbnailFor (repository (succeeded THUMBNAIL_bundle) [cover_jpg, report_pdf_jpg])
     ''item-1'' \<and>
   getThumbnailFor
     (answering_only \<lparr>elementsPerPage = Some 1, currentPage = None,
                       sortBy = None, filters = None\<rparr>
        (repository (succeeded THUMBNAIL_bundle) [cover_jpg, report_pdf_jpg]))
     ''item-1'' =
   getThumbnailFor (repository (succeeded THUMBNAIL_bundle) [cover_jpg, report_pdf_jpg])
     ''item-1'' \<and>
   getMatchingThumbnail
     (answering_only \<lparr>elementsPerPage = Some 1, currentPage = None,
                       sortBy = None, filters = None\<rparr>
        (repository (succeeded THUMBNAIL_bundle) [cover_jpg, report_pdf_jpg]))
     ''item-1'' report_pdf \<noteq>
   getMatchingThumbnail (repository (succeeded THUMBNAIL_bundle) [cover_jpg, report_pdf_jpg])
     ''item-1'' report_pdf"
proof -
  have contract:
    "never_throw (repository (succeeded THUMBNAIL_bundle) [cover_jpg, report_pdf_jpg])"
    by (simp add: never_throw_def repository_def)
  have lookup:
    "findByItemAndName (repository (succeeded THUMBNAIL_bundle) [cover_jpg, report_pdf_jpg])
       ''item-1'' ''THUMBNAIL'' =
       [(0, Next pending)] @ (1, Next (succeeded THUMBNAIL_bundle)) # []"
    by (simp add: repository_def)
  have found: "payload (succeeded THUMBNAIL_bundle) = Some THUMBNAIL_bundle"
    by (simp add: succeeded_def RemoteData_new_def)
  have last: "in_time ([] :: (nat \<times> Bundle RemoteData notification) list) (1 + 2)"
    by (simp add: in_time_def)
  have whole_listing:
    "(2, Next (succeeded (first_page
        (Some \<lparr>elementsPerPage = Some MAX_SAFE_INTEGER, currentPage = None,
               sortBy = None, filters = None\<rparr>) [cover_jpg, report_pdf_jpg])))
     \<in> set (findAllByHref (repository (succeeded THUMBNAIL_bundle) [cover_jpg, report_pdf_jpg])
         (href (bitstreams (links THUMBNAIL_bundle)))
         (Some \<lparr>elementsPerPage = Some MAX_SAFE_INTEGER, currentPage = None,
                sortBy = None, filters = None\<rparr>) [])"
    by (simp add: repository_def)
  have single_listing:
    "(2, Next (succeeded (first_page
        (Some \<lparr>elementsPerPage = Some 1, currentPage = None,
               sortBy = None, filters = None\<rparr>) [cover_jpg, report_pdf_jpg])))
     \<in> set (findAllByHref (repository (succeeded THUMBNAIL_bundle) [cover_jpg, report_pdf_jpg])
         (href (bitstreams (links THUMBNAIL_bundle)))
         (Some \<lparr>elementsPerPage = Some 1, currentPage = None,
                sortBy = None, filters = None\<rparr>) [])"
    by (simp add: repository_def)
  have whole_page:
    "payload (succeeded (first_page
        (Some \<lparr>elementsPerPage = Some MAX_SAFE_INTEGER, currentPage = None,
               sortBy = None, filters = None\<rparr>) [cover_jpg, report_pdf_jpg])) =
       Some (first_page
        (Some \<lparr>elementsPerPage = Some MAX_SAFE_INTEGER, currentPage = None,
               sortBy = None, filters = None\<rparr>) [cover_jpg, report_pdf_jpg])"
    "page (first_page
        (Some \<lparr>elementsPerPage = Some MAX_SAFE_INTEGER, currentPage = None,
               sortBy = None, filters = None\<rparr>) [cover_jpg, report_pdf_jpg]) =
       Some [cover_jpg, report_pdf_jpg]"
    by (simp_all add: succeeded_def RemoteData_new_def first_page_def page_size_def
        MAX_SAFE_INTEGER_def)
  have single_page:
    "payload (succeeded (first_page
        (Some \<lparr>elementsPerPage = Some 1, currentPage = None,
               sortBy = None, filters = None\<rparr>) [cover_jpg, report_pdf_jpg])) =
       Some (first_page
        (Some \<lparr>elementsPerPage = Some 1, currentPage = None,
               sortBy = None, filters = None\<rparr>) [cover_jpg, report_pdf_jpg])"
    "page (first_page
        (Some \<lparr>elementsPerPage = Some 1, currentPage = None,
               sortBy = None, filters = None\<rparr>) [cover_jpg, report_pdf_jpg]) =
       Some [cover_jpg]"
    by (simp_all add: succeeded_def RemoteData_new_def first_page_def page_size_def)
  have names: "\<not> startsWith (name cover_jpg) (name report_pdf)"
    "startsWith (name report_pdf_jpg) (name report_pdf)"
    by (simp_all add: startsWith_def cover_jpg_def report_pdf_jpg_def report_pdf_def)
  have "\<exists>matchingThumbnail.
      matchingThumbnail \<in> set [cover_jpg, report_pdf_jpg] \<and>
      startsWith (name matchingThumbnail) (name report_pdf) \<and>
      (1 + 2, Next (RemoteData_new False False True None
                      (Some (AnyBitstream matchingThumbnail))))
        \<in> set (getMatchingThumbnail
            (repository (succeeded THUMBNAIL_bundle) [cover_jpg, report_pdf_jpg])
            ''item-1'' report_pdf)"
    using contract lookup found last whole_listing whole_page names(2)
    by (intro requested_page_sizes[THEN conjunct2, THEN conjunct2, THEN conjunct2,
          THEN conjunct1, rule_format, where earlier = "[(0, Next pending)]"
          and bundleRD = "succeeded THUMBNAIL_bundle" and later = "[]"
          and found = THUMBNAIL_bundle
          and list = "first_page
            (Some \<lparr>elementsPerPage = Some MAX_SAFE_INTEGER, currentPage = None,
                   sortBy = None, filters = None\<rparr>) [cover_jpg, report_pdf_jpg]"
          and thumbnail = report_pdf_jpg]) simp_all
  with names(1) have matching:
    "(3, Next (RemoteData_new False False True None (Some (AnyBitstream report_pdf_jpg))))
     \<in> set (getMatchingThumbnail
         (repository (succeeded THUMBNAIL_bundle) [cover_jpg, report_pdf_jpg])
         ''item-1'' report_pdf)"
    by (auto simp add: numeral_3_eq_3)
  have "(1 + 2, Next (RemoteData_new False False True None
                      (map_option AnyBitstream (at_index [cover_jpg] 0))))
     \<in> set (getThumbnailFor
         (repository (succeeded THUMBNAIL_bundle) [cover_jpg, report_pdf_jpg]) ''item-1'')"
    using contract lookup found last single_listing single_page
    by (intro requested_page_sizes[THEN conjunct2, THEN conjunct2, THEN conjunct2,
          THEN conjunct2, THEN conjunct1, rule_format, where earlier = "[(0, Next pending)]"
          and bundleRD = "succeeded THUMBNAIL_bundle" and later = "[]"
          and found = THUMBNAIL_bundle
          and list = "first_page
            (Some \<lparr>elementsPerPage = Some 1, currentPage = None,
                   sortBy = None, filters = None\<rparr>) [cover_jpg, report_pdf_jpg]"]) simp_all
  then have first:
    "(3, Next (RemoteData_new False False True None (Some (AnyBitstream cover_jpg))))
     \<in> set (getThumbnailFor
         (repository (succeeded THUMBNAIL_bundle) [cover_jpg, report_pdf_jpg]) ''item-1'')"
    by (simp add: at_index_def numeral_3_eq_3)
  have whole: "getMatchingThumbnail
     (answering_only \<lparr>elementsPerPage = Some MAX_SAFE_INTEGER, currentPage = None,
                       sortBy = None, filters = None\<rparr>
        (repository (succeeded THUMBNAIL_bundle) [cover_jpg, report_pdf_jpg]))
     ''item-1'' report_pdf =
   getMatchingThumbnail (repository (succeeded THUMBNAIL_bundle) [cover_jpg, report_pdf_jpg])
     ''item-1'' report_pdf"
    by (intro requested_page_sizes[THEN conjunct2, THEN conjunct2, THEN conjunct2,
          THEN conjunct2, THEN conjunct2, THEN conjunct1, rule_format])
       (simp add: answering_only_def repository_def)
  have single: "getThumbnailFor
     (answering_only \<lparr>elementsPerPage = Some 1, currentPage = None,
                       sortBy = None, filters = None\<rparr>
        (repository (succeeded THUMBNAIL_bundle) [cover_jpg, report_pdf_jpg]))
     ''item-1'' =
   getThumbnailFor (repository (succeeded THUMBNAIL_bundle) [cover_jpg, report_pdf_jpg])
     ''item-1''"
    by (intro requested_page_sizes[THEN conjunct2, THEN conjunct2, THEN conjunct2,
          THEN conjunct2, THEN conjunct2, THEN conjunct2, rule_format])
       (simp add: answering_only_def repository_def)
  have differ: "getThumbnailFor
     (answering_only \<lparr>elementsPerPage = Some MAX_SAFE_INTEGER, currentPage = None,
                       sortBy = None, filters = None\<rparr>
        (repository (succeeded THUMBNAIL_bundle) [cover_jpg, report_pdf_jpg]))
     ''item-1'' \<noteq>
   getThumbnailFor (repository (succeeded THUMBNAIL_bundle) [cover_jpg, report_pdf_jpg])
     ''item-1''"
   "getMatchingThumbnail
     (answering_only \<lparr>elementsPerPage = Some 1, currentPage = None,
                       sortBy = None, filters = None\<rparr>
        (repository (succeeded THUMBNAIL_bundle) [cover_jpg, report_pdf_jpg]))
     ''item-1'' report_pdf \<noteq>
   getMatchingThumbnail (repository (succeeded THUMBNAIL_bundle) [cover_jpg, report_pdf_jpg])
     ''item-1'' report_pdf"
    by (simp_all add: answering_only_def getThumbnailFor_def getMatchingThumbnail_def
      findAllByBundle_def repository_def succeeded_def pending_def first_page_def
      page_size_def RemoteData_new_def RemoteDataError_new_def switchMap_def map_op_def
      delivered_def in_time_def at_tie_def from_array_def member_def hasValue_def
      isNotEmpty_def as_any_def at_index_def startsWith_def MAX_SAFE_INTEGER_def
      THUMBNAIL_bundle_def)
  show ?thesis
    using contract lookup last whole_listing whole_page(2) single_page(2) names matching
      first whole single differ
    by (simp add: MAX_SAFE_INTEGER_def)
qed
end
